theory Spec2Isabelle
  imports Complex_Main
begin

section \<open>Browser media tools: frame extraction, GIF conversion, audio extraction and splitting\<close>

text \<open>
  A shallow embedding of the processing functions of the video toolbox:
  \<^item> \<^verbatim>\<open>tools/video-to-gif/functions.ts\<close> (\<^verbatim>\<open>calculateDimensions\<close>, \<^verbatim>\<open>convertVideoToGif\<close>),
  \<^item> \<^verbatim>\<open>tools/frame-extractor/functions.ts\<close> (\<^verbatim>\<open>extractFrameFromVideo\<close>, \<^verbatim>\<open>extractFrames\<close>),
  \<^item> the audio splitter's \<^verbatim>\<open>functions.ts\<close> (\<^verbatim>\<open>getAudioMetadata\<close>, \<^verbatim>\<open>getFFmpeg\<close>, \<^verbatim>\<open>splitAudio\<close>),
  \<^item> the audio extractor's \<^verbatim>\<open>functions.ts\<close> (\<^verbatim>\<open>getFFmpeg\<close>, \<^verbatim>\<open>extractAudioFromVideo\<close>).

  Conventions. A JavaScript number is a \<^typ>\<open>real\<close>, the value of the double; the non-finite
  values (NaN, the infinities) are outside of the model. The result of an arithmetic
  operation of the code is the exact result rounded to a double. Where the code passes such
  a result to \<^verbatim>\<open>Math.round\<close>, \<^verbatim>\<open>Math.floor\<close> or \<^verbatim>\<open>Math.ceil\<close>, where the rounding can change
  the integer that comes out, the model rounds it too, through a function \<open>fl\<close> that every
  such function takes as its first argument; halving, doubling and the comparisons are exact
  in binary floating point and are not rounded. Elsewhere (start offsets, seek times) the
  exact value stands for the double. A number that the code only ever uses as a count or an
  index is a \<^typ>\<open>nat\<close>, an integral result of \<^verbatim>\<open>Math.round\<close>, \<^verbatim>\<open>Math.floor\<close> or \<^verbatim>\<open>Math.ceil\<close> is an
  \<^typ>\<open>int\<close>.
  A thrown \<^verbatim>\<open>Error\<close> is its message, on the left of a sum. What the browser and the two
  engines (the decoder of a media element, FFmpeg, the GIF encoder) answer is a parameter
  of the model: the functions below say what the code does with each answer.
\<close>

subsection \<open>JavaScript primitives\<close>

text \<open>
  The rounding of double arithmetic, \<open>fl x\<close> being the double nearest to \<open>x\<close>, is a
  parameter. What is known of it and used below: it is monotone, and it leaves every integer
  of magnitude up to \<open>2^53\<close> as it is. The rounding \<open>exact\<close> that changes nothing is the one
  of the concrete inputs of this file: they are chosen so that the values that the model
  rounds on them have a short binary expansion, which double arithmetic computes exactly
  (or, for the thirds of a run of three frames, are far from where the integer changes).
\<close>

type_synonym rounding = "real \<Rightarrow> real"

definition double_rounding :: "rounding \<Rightarrow> bool" where
  "double_rounding fl \<longleftrightarrow>
     (\<forall>x y. x \<le> y \<longrightarrow> fl x \<le> fl y) \<and>
     (\<forall>k::int. \<bar>k\<bar> \<le> 2 ^ 53 \<longrightarrow> fl (of_int k) = of_int k)"

definition exact :: rounding where
  "exact x = x"

text \<open>\<^verbatim>\<open>Math.round\<close> rounds to the nearest integer, a half towards plus infinity.\<close>

definition Math_round :: "real \<Rightarrow> int" where
  "Math_round x = \<lfloor>x + 1 / 2\<rfloor>"

definition Math_floor :: "real \<Rightarrow> int" where
  "Math_floor x = \<lfloor>x\<rfloor>"

definition Math_ceil :: "real \<Rightarrow> int" where
  "Math_ceil x = \<lceil>x\<rceil>"

text \<open>\<^verbatim>\<open>String(n)\<close> of a non-negative integer: its decimal digits.\<close>

definition digit_char :: "nat \<Rightarrow> char" where
  "digit_char d = ''0123456789'' ! (d mod 10)"

function String_of_nat :: "nat \<Rightarrow> string" where
  "String_of_nat n =
     (if n < 10 then [digit_char n] else String_of_nat (n div 10) @ [digit_char (n mod 10)])"
  by pat_completeness auto
termination
  by (relation "measure (\<lambda>n. n)") auto

declare String_of_nat.simps [simp del]

text \<open>\<^verbatim>\<open>s.padStart(n, c)\<close> for a one-character pad string.\<close>

definition padStart :: "nat \<Rightarrow> char \<Rightarrow> string \<Rightarrow> string" where
  "padStart targetLength c s = replicate (targetLength - length s) c @ s"

text \<open>
  \<^verbatim>\<open>name.replace(/\.[^/.]+$/, "")\<close>: the leftmost position where a dot is followed, up to
  the end of the string, by one or more characters that are neither a dot nor a slash; the
  match runs to the end, so replacing it by the empty string keeps what is before it.
\<close>

definition ext_char :: "char \<Rightarrow> bool" where
  "ext_char c = (c \<noteq> CHR ''/'' \<and> c \<noteq> CHR ''.'')"

fun replace_ext :: "string \<Rightarrow> string" where
  "replace_ext [] = []"
| "replace_ext (c # cs) =
     (if c = CHR ''.'' \<and> cs \<noteq> [] \<and> list_all ext_char cs then [] else c # replace_ext cs)"

text \<open>\<^verbatim>\<open>name.split(".").pop()\<close>: the piece after the last dot, the whole name without a dot.\<close>

fun split_dot :: "string \<Rightarrow> string \<Rightarrow> string list" where
  "split_dot cur [] = [cur]"
| "split_dot cur (c # cs) =
     (if c = CHR ''.'' then cur # split_dot [] cs else split_dot (cur @ [c]) cs)"

definition split_pop :: "string \<Rightarrow> string" where
  "split_pop s = last (split_dot [] s)"

text \<open>\<^verbatim>\<open>x || d\<close> on strings: the empty string is falsy.\<close>

definition or_else :: "string \<Rightarrow> string \<Rightarrow> string" where
  "or_else s d = (if s = [] then d else s)"

subsection \<open>Files, artifacts and progress events\<close>

text \<open>
  What the browser's decoder makes of a file's bytes: it fires \<^verbatim>\<open>error\<close>, or it fires
  \<^verbatim>\<open>loadedmetadata\<close> with a duration and (for video) the pixel dimensions.
\<close>

datatype media = Corrupt | Media (media_duration: real) (videoWidth: real) (videoHeight: real)

type_synonym bytes = "nat list"

record source_file =
  file_name :: string
  file_size :: nat
  file_bytes :: bytes
  file_media :: media

text \<open>\<^verbatim>\<open>ProcessedFile\<close>; the object URL, a handle on the blob, is left out.\<close>

record processed_file =
  name :: string
  blob :: bytes
  mime :: string
  originalSize :: nat
  processedSize :: nat

datatype stage = Loading | Splitting | Extracting | Encoding | Complete

text \<open>
  The three progress interfaces (\<^verbatim>\<open>AudioSplitProgress\<close>, \<^verbatim>\<open>AudioExtractionProgress\<close>,
  \<^verbatim>\<open>ConversionProgress\<close>) as one record; the display-only \<^verbatim>\<open>message\<close> is left out.
\<close>

record progress_event =
  stage :: stage
  progress :: int
  current :: "nat option"
  total :: "nat option"

definition ev :: "stage \<Rightarrow> int \<Rightarrow> progress_event" where
  "ev s p = \<lparr>stage = s, progress = p, current = None, total = None\<rparr>"

definition ev_of :: "stage \<Rightarrow> int \<Rightarrow> nat \<Rightarrow> nat \<Rightarrow> progress_event" where
  "ev_of s p c t = \<lparr>stage = s, progress = p, current = Some c, total = Some t\<rparr>"

subsection \<open>GIF dimensions\<close>

record dimensions =
  width :: int
  height :: int

definition calculateDimensions :: "rounding \<Rightarrow> real \<Rightarrow> real \<Rightarrow> real \<Rightarrow> dimensions" where
  "calculateDimensions fl originalWidth originalHeight scale =
     (let width = Math_round (fl (originalWidth * scale));
          height = Math_round (fl (originalHeight * scale));
          width = max width 10;
          height = max height 10;
          width = Math_round (real_of_int width / 2) * 2;
          height = Math_round (real_of_int height / 2) * 2
      in \<lparr>width = width, height = height\<rparr>)"

subsection \<open>Pipeline runs: state, progress callback, loops\<close>

text \<open>
  A numeric command-line token \<^verbatim>\<open>x.toString()\<close> is kept as the number it prints.
\<close>

datatype arg = Str string | Num real

type_synonym vfs = "string \<rightharpoonup> bytes"

text \<open>
  What a run leaves behind besides its result: the progress events handed to
  \<^verbatim>\<open>onProgress\<close>, the engine's virtual filesystem, the commands given to \<^verbatim>\<open>ffmpeg.exec\<close>
  and the times assigned to \<^verbatim>\<open>video.currentTime\<close>, each in order.
\<close>

record run_state =
  events :: "progress_event list"
  fs :: vfs
  commands :: "arg list list"
  seeks :: "real list"

definition start_state :: "vfs \<Rightarrow> run_state" where
  "start_state files = \<lparr>events = [], fs = files, commands = [], seeks = []\<rparr>"

definition onProgress :: "progress_event \<Rightarrow> run_state \<Rightarrow> run_state" where
  "onProgress e st = st\<lparr>events := events st @ [e]\<rparr>"

text \<open>
  A \<^verbatim>\<open>for\<close> loop whose body may throw: the first throw leaves the loop with the state
  reached so far.
\<close>

fun for_each ::
  "('i \<Rightarrow> run_state \<Rightarrow> (string + 'a) \<times> run_state) \<Rightarrow> 'i list \<Rightarrow> 'a list \<Rightarrow> run_state
     \<Rightarrow> (string + 'a list) \<times> run_state" where
  "for_each body [] acc st = (Inr acc, st)"
| "for_each body (i # is) acc st =
     (case body i st of
        (Inl e, st') \<Rightarrow> (Inl e, st')
      | (Inr r, st') \<Rightarrow> for_each body is (acc @ [r]) st')"

subsection \<open>The FFmpeg engine\<close>

text \<open>
  The engine's answers. \<^verbatim>\<open>exec\<close> throws, or it returns having written the output file
  (the last token of the command), or it returns without one; while it runs it reports
  progress values to the \<^verbatim>\<open>progress\<close> listener. \<^verbatim>\<open>acquire_error\<close> is what
  \<^verbatim>\<open>await getFFmpeg()\<close> throws in this run, \<open>None\<close> when it returns the engine.
\<close>

datatype exec_outcome = ExecThrows string | ExecWrites bytes | ExecNoOutput

record ffmpeg_env =
  acquire_error :: "string option"
  exec_result :: "arg list \<Rightarrow> exec_outcome"
  exec_progress :: "arg list \<Rightarrow> real list"

text \<open>
  The virtual filesystem: \<^verbatim>\<open>writeFile\<close> creates or overwrites an entry, \<^verbatim>\<open>readFile\<close> and
  \<^verbatim>\<open>deleteFile\<close> throw the engine's filesystem error for a path that has no entry.
\<close>

definition output_of :: "arg list \<Rightarrow> string" where
  "output_of args = (case last args of Str s \<Rightarrow> s | Num x \<Rightarrow> [])"

definition writeFile :: "string \<Rightarrow> bytes \<Rightarrow> run_state \<Rightarrow> run_state" where
  "writeFile path data st = st\<lparr>fs := (fs st)(path \<mapsto> data)\<rparr>"

definition readFile :: "string \<Rightarrow> run_state \<Rightarrow> (string + bytes) \<times> run_state" where
  "readFile path st =
     (case fs st path of
        None \<Rightarrow> (Inl ''ErrnoError: FS error'', st)
      | Some data \<Rightarrow> (Inr data, st))"

definition deleteFile :: "string \<Rightarrow> run_state \<Rightarrow> (string + unit) \<times> run_state" where
  "deleteFile path st =
     (case fs st path of
        None \<Rightarrow> (Inl ''ErrnoError: FS error'', st)
      | Some data \<Rightarrow> (Inr (), st\<lparr>fs := (fs st)(path := None)\<rparr>))"

text \<open>
  \<^verbatim>\<open>ffmpeg.exec(args)\<close> with the listener \<open>listener\<close> registered by \<^verbatim>\<open>ffmpeg.on("progress", ...)\<close>.
\<close>

definition exec ::
  "ffmpeg_env \<Rightarrow> (real \<Rightarrow> run_state \<Rightarrow> run_state) \<Rightarrow> arg list \<Rightarrow> run_state
     \<Rightarrow> (string + unit) \<times> run_state" where
  "exec env listener args st =
     (let st = st\<lparr>commands := commands st @ [args]\<rparr>;
          st = fold listener (exec_progress env args) st
      in case exec_result env args of
           ExecThrows m \<Rightarrow> (Inl m, st)
         | ExecWrites data \<Rightarrow> (Inr (), writeFile (output_of args) data st)
         | ExecNoOutput \<Rightarrow> (Inr (), st))"

subsection \<open>Audio splitter\<close>

definition getAudioMetadata :: "source_file \<Rightarrow> string + real" where
  "getAudioMetadata file =
     (case file_media file of
        Corrupt \<Rightarrow> Inl (''Failed to load audio metadata: '' @ file_name file)
      | Media d w h \<Rightarrow> Inr d)"

text \<open>The two checks of \<^verbatim>\<open>splitAudio\<close> on the segment length, and the number of segments.\<close>

definition planSegments :: "rounding \<Rightarrow> real \<Rightarrow> real \<Rightarrow> string + nat" where
  "planSegments fl duration segmentLength =
     (if segmentLength \<le> 0 then Inl ''Segment length must be greater than 0''
      else if segmentLength > duration
      then Inl ''Segment length cannot be greater than audio duration''
      else Inr (nat (Math_ceil (fl (duration / segmentLength)))))"

definition segment_number :: "nat \<Rightarrow> string" where
  "segment_number i = padStart 3 (CHR ''0'') (String_of_nat (i + 1))"

definition audio_mime :: "string \<Rightarrow> string" where
  "audio_mime fileExtension =
     (if fileExtension = ''mp3'' then ''audio/mpeg''
      else if fileExtension = ''wav'' then ''audio/wav'' else ''audio/mpeg'')"

definition segment_args :: "string \<Rightarrow> string \<Rightarrow> real \<Rightarrow> nat \<Rightarrow> arg list" where
  "segment_args inputFileName fileExtension segmentLength i =
     (let startTime = real i * segmentLength;
          outputFileName = ''output-segment-'' @ segment_number i @ ''.'' @ fileExtension
      in [Str ''-i'', Str inputFileName, Str ''-ss'', Num startTime, Str ''-t'', Num segmentLength,
          Str ''-acodec'', Str ''copy'', Str ''-y'', Str outputFileName])"

text \<open>The body of the segment loop of \<^verbatim>\<open>splitAudio\<close>, for the index \<open>i\<close>.\<close>

definition splitSegment ::
  "rounding \<Rightarrow> ffmpeg_env \<Rightarrow> source_file \<Rightarrow> real \<Rightarrow> nat \<Rightarrow> nat \<Rightarrow> run_state
     \<Rightarrow> (string + processed_file) \<times> run_state" where
  "splitSegment fl env file segmentLength totalSegments i st =
     (let fileExtension = or_else (split_pop (file_name file)) ''mp3'';
          inputFileName = ''input.'' @ fileExtension;
          baseName = replace_ext (file_name file);
          outputFileName = ''output-segment-'' @ segment_number i @ ''.'' @ fileExtension;
          st = onProgress (ev_of Splitting
                 (20 + Math_floor (fl (fl (real i / real totalSegments) * 70)))
                 (i + 1) totalSegments) st;
          args = segment_args inputFileName fileExtension segmentLength i
      in case exec env (\<lambda>p st. st) args st of
           (Inl m, st) \<Rightarrow>
             (Inl (''FFmpeg failed for segment '' @ String_of_nat (i + 1) @ '': '' @ m), st)
         | (Inr u, st) \<Rightarrow>
             (case readFile outputFileName st of
                (Inl m, st) \<Rightarrow> (Inl m, st)
              | (Inr data, st) \<Rightarrow>
                  (let segmentFileName =
                         baseName @ ''-segment-'' @ segment_number i @ ''.'' @ fileExtension;
                       processed = \<lparr>name = segmentFileName, blob = data,
                          mime = audio_mime fileExtension, originalSize = file_size file,
                          processedSize = length data\<rparr>
                   in case deleteFile outputFileName st of
                        (Inl m, st) \<Rightarrow> (Inl m, st)
                      | (Inr u, st) \<Rightarrow> (Inr processed, st))))"

text \<open>
  \<^verbatim>\<open>splitAudio\<close> registers a \<^verbatim>\<open>log\<close> listener only, so the engine's progress values change
  nothing. Its outer \<^verbatim>\<open>catch\<close> logs the error and throws a new \<^verbatim>\<open>Error\<close> with the same message:
  the model passes the message on. The same holds of \<^verbatim>\<open>extractAudioFromVideo\<close> below.
\<close>

definition splitAudio ::
  "rounding \<Rightarrow> ffmpeg_env \<Rightarrow> source_file \<Rightarrow> real \<Rightarrow> run_state
     \<Rightarrow> (string + processed_file list) \<times> run_state" where
  "splitAudio fl env file segmentLength st =
     (let st = onProgress (ev Loading 0) st
      in case getAudioMetadata file of
           Inl m \<Rightarrow> (Inl m, st)
         | Inr duration \<Rightarrow>
        (case planSegments fl duration segmentLength of
           Inl m \<Rightarrow> (Inl m, st)
         | Inr totalSegments \<Rightarrow>
        (case acquire_error env of
           Some m \<Rightarrow> (Inl m, st)
         | None \<Rightarrow>
        (let st = onProgress (ev Loading 10) st;
             inputFileName = ''input.'' @ or_else (split_pop (file_name file)) ''mp3'';
             st = writeFile inputFileName (file_bytes file) st;
             st = onProgress (ev_of Splitting 20 0 totalSegments) st
         in case for_each (splitSegment fl env file segmentLength totalSegments)
                   [0..<totalSegments] [] st of
              (Inl m, st) \<Rightarrow> (Inl m, st)
            | (Inr processedFiles, st) \<Rightarrow>
           (case deleteFile inputFileName st of
              (Inl m, st) \<Rightarrow> (Inl m, st)
            | (Inr u, st) \<Rightarrow>
                (Inr processedFiles,
                 onProgress (ev_of Complete 100 totalSegments totalSegments) st))))))"

text \<open>
  Names for what a run of \<^verbatim>\<open>splitAudio\<close> computes from the file: \<^verbatim>\<open>fileExtension\<close>, the
  \<^verbatim>\<open>outputFileName\<close> of segment \<open>i\<close>, and the event emitted at the start of segment \<open>i\<close> of
  \<open>n\<close>.
\<close>

definition split_extension :: "source_file \<Rightarrow> string" where
  "split_extension file = or_else (split_pop (file_name file)) ''mp3''"

definition split_input :: "source_file \<Rightarrow> string" where
  "split_input file = ''input.'' @ split_extension file"

definition split_output :: "source_file \<Rightarrow> nat \<Rightarrow> string" where
  "split_output file i = ''output-segment-'' @ segment_number i @ ''.'' @ split_extension file"

definition split_event :: "rounding \<Rightarrow> nat \<Rightarrow> nat \<Rightarrow> progress_event" where
  "split_event fl n i =
     ev_of Splitting (20 + Math_floor (fl (fl (real i / real n) * 70))) (i + 1) n"

text \<open>
  Reading a command: the token after an option, and for a segment command its start offset
  (\<^verbatim>\<open>-ss\<close>) and its duration (\<^verbatim>\<open>-t\<close>).
\<close>

fun option_value :: "string \<Rightarrow> arg list \<Rightarrow> arg option" where
  "option_value k (a # v # rest) = (if a = Str k then Some v else option_value k (v # rest))"
| "option_value k [a] = None"
| "option_value k [] = None"

definition unit_start :: "arg list \<Rightarrow> real option" where
  "unit_start args = (case option_value ''-ss'' args of Some (Num x) \<Rightarrow> Some x | _ \<Rightarrow> None)"

definition unit_duration :: "arg list \<Rightarrow> real option" where
  "unit_duration args = (case option_value ''-t'' args of Some (Num x) \<Rightarrow> Some x | _ \<Rightarrow> None)"

definition sum_durations :: "arg list list \<Rightarrow> real" where
  "sum_durations cmds =
     sum_list (map (\<lambda>args. case unit_duration args of Some x \<Rightarrow> x | None \<Rightarrow> 0) cmds)"

subsection \<open>Audio extractor\<close>

datatype AudioFormat = Mp3 | Wav

datatype AudioQuality = Low | Medium | High

record AudioExtractionOptions =
  audio_format :: AudioFormat
  audio_quality :: AudioQuality

definition format_name :: "AudioFormat \<Rightarrow> string" where
  "format_name f = (case f of Mp3 \<Rightarrow> ''mp3'' | Wav \<Rightarrow> ''wav'')"

text \<open>The \<^verbatim>\<open>progress\<close> listener that \<^verbatim>\<open>extractAudioFromVideo\<close> registers on the engine.\<close>

definition extraction_progress :: "real \<Rightarrow> int" where
  "extraction_progress ffmpegProgress = 40 + Math_floor (ffmpegProgress * 0.5)"

definition extraction_listener :: "real \<Rightarrow> run_state \<Rightarrow> run_state" where
  "extraction_listener ffmpegProgress st =
     onProgress (ev Extracting (extraction_progress ffmpegProgress)) st"

definition extraction_args :: "string \<Rightarrow> string \<Rightarrow> AudioExtractionOptions \<Rightarrow> arg list" where
  "extraction_args inputFileName outputFileName options =
     [Str ''-i'', Str inputFileName] @
     (if audio_format options = Mp3
      then (let bitrate = (if audio_quality options = Low then ''128k''
                           else if audio_quality options = Medium then ''192k'' else ''320k'')
            in [Str ''-vn'', Str ''-acodec'', Str ''libmp3lame'', Str ''-b:a'', Str bitrate,
                Str ''-y''])
      else [Str ''-vn'', Str ''-acodec'', Str ''pcm_s16le'', Str ''-y'']) @
     [Str outputFileName]"

definition extractAudioFromVideo ::
  "ffmpeg_env \<Rightarrow> source_file \<Rightarrow> AudioExtractionOptions \<Rightarrow> run_state
     \<Rightarrow> (string + processed_file) \<times> run_state" where
  "extractAudioFromVideo env file options st =
     (let st = onProgress (ev Loading 0) st
      in case acquire_error env of
           Some m \<Rightarrow> (Inl m, st)
         | None \<Rightarrow>
        (let st = onProgress (ev Loading 20) st;
             inputFileName = ''input.'' @ or_else (split_pop (file_name file)) ''mp4'';
             outputFileName = ''output.'' @ format_name (audio_format options);
             st = writeFile inputFileName (file_bytes file) st;
             st = onProgress (ev Extracting 40) st;
             args = extraction_args inputFileName outputFileName options
         in case exec env extraction_listener args st of
              (Inl m, st) \<Rightarrow> (Inl (''FFmpeg failed: '' @ m), st)
            | (Inr u, st) \<Rightarrow>
           (let st = onProgress (ev Encoding 90) st
            in case readFile outputFileName st of
                 (Inl m, st) \<Rightarrow> (Inl m, st)
               | (Inr data, st) \<Rightarrow>
              (case deleteFile inputFileName st of
                 (Inl m, st) \<Rightarrow> (Inl m, st)
               | (Inr u, st) \<Rightarrow>
              (case deleteFile outputFileName st of
                 (Inl m, st) \<Rightarrow> (Inl m, st)
               | (Inr u, st) \<Rightarrow>
                 (let baseName = replace_ext (file_name file);
                      fileName = baseName @ ''.'' @ format_name (audio_format options);
                      st = onProgress (ev Complete 100) st
                  in (Inr \<lparr>name = fileName, blob = data,
                            mime = (if audio_format options = Mp3 then ''audio/mpeg''
                                    else ''audio/wav''),
                            originalSize = file_size file, processedSize = length data\<rparr>,
                      st)))))))"

text \<open>The two names that \<^verbatim>\<open>extractAudioFromVideo\<close> stages in the virtual filesystem.\<close>

definition extract_input :: "source_file \<Rightarrow> string" where
  "extract_input file = ''input.'' @ or_else (split_pop (file_name file)) ''mp4''"

definition extract_output :: "AudioExtractionOptions \<Rightarrow> string" where
  "extract_output options = ''output.'' @ format_name (audio_format options)"

subsection \<open>The browser: canvas, seeking, image and GIF encoding\<close>

text \<open>
  \<^verbatim>\<open>canvas_context\<close>: \<^verbatim>\<open>getContext("2d")\<close> returns a context. \<^verbatim>\<open>seek_settles t\<close>: after
  \<^verbatim>\<open>video.currentTime = t\<close> the \<^verbatim>\<open>seeked\<close> event fires within the five seconds of
  \<^verbatim>\<open>seekToTime\<close>. \<^verbatim>\<open>toBlob_result\<close>: the blob \<^verbatim>\<open>canvas.toBlob\<close> passes to its callback for the
  frame of a file at a time, \<open>None\<close> for \<^verbatim>\<open>null\<close>. \<^verbatim>\<open>gif_progress\<close>, \<^verbatim>\<open>gif_blob\<close>: the values
  the GIF encoder reports to its \<^verbatim>\<open>progress\<close> listener and the blob of its \<^verbatim>\<open>finished\<close>
  event. A media element that has loaded its metadata is taken to answer every seek of the
  frame extractor, which sets no timeout, with \<^verbatim>\<open>seeked\<close>, and the encoder to finish.
\<close>

record browser_env =
  canvas_context :: bool
  seek_settles :: "real \<Rightarrow> bool"
  toBlob_result :: "source_file \<Rightarrow> real \<Rightarrow> bytes option"
  gif_progress :: "real list"
  gif_blob :: bytes

definition set_currentTime :: "real \<Rightarrow> run_state \<Rightarrow> run_state" where
  "set_currentTime t st = st\<lparr>seeks := seeks st @ [t]\<rparr>"

definition load_error :: "source_file \<Rightarrow> string" where
  "load_error file =
     ''Failed to load video: '' @ file_name file @
     ''. Format may not be supported by your browser.''"

subsection \<open>Video to GIF\<close>

datatype DitheringAlgorithm = FloydSteinberg | FalseFloydSteinberg | Stucki | Atkinson

record GifConversionOptions =
  fps :: real
  quality :: real
  scale :: real
  startTime :: real
  maxDuration :: real
  dithering :: "DitheringAlgorithm option"
  loop :: int
  workers :: nat

definition seekToTime :: "browser_env \<Rightarrow> real \<Rightarrow> run_state \<Rightarrow> (string + unit) \<times> run_state" where
  "seekToTime env time st =
     (let st = set_currentTime time st
      in if seek_settles env time then (Inr (), st) else (Inl ''Seek timeout'', st))"

text \<open>
  The timing computed by \<^verbatim>\<open>convertVideoToGif\<close> from the options and the video's duration:
  the first frame's time, the interval between frames and the number of frames.
\<close>

definition gif_startTime :: "GifConversionOptions \<Rightarrow> real" where
  "gif_startTime options = (if startTime options = 0 then 0 else startTime options)"

definition gif_totalFrames :: "rounding \<Rightarrow> GifConversionOptions \<Rightarrow> real \<Rightarrow> nat" where
  "gif_totalFrames fl options video_duration =
     (let startTime = gif_startTime options;
          maxEndTime = video_duration;
          endTime = min (fl (startTime + maxDuration options)) maxEndTime;
          duration = fl (endTime - startTime)
      in nat (max 1 (Math_floor (fl (duration * fps options)))))"

text \<open>
  The body of the frame loop, for the index \<open>i\<close>; its result is the frame's delay. The seek
  time does not pass through a rounding to an integer and is kept exact.
\<close>

definition gifFrame ::
  "rounding \<Rightarrow> browser_env \<Rightarrow> GifConversionOptions \<Rightarrow> real \<Rightarrow> nat \<Rightarrow> nat \<Rightarrow> run_state
     \<Rightarrow> (string + int) \<times> run_state" where
  "gifFrame fl env options video_duration totalFrames i st =
     (let frameInterval = 1 / fps options;
          time = gif_startTime options + real i * frameInterval;
          seekTime = min time (video_duration - 0.01)
      in case seekToTime env seekTime st of
           (Inl m, st) \<Rightarrow> (Inl m, st)
         | (Inr u, st) \<Rightarrow>
             (Inr (Math_round (fl (fl frameInterval * 1000))),
              onProgress (ev_of Extracting
                (Math_round (fl (fl (real (i + 1) / real totalFrames) * 100)))
                (i + 1) totalFrames) st))"

definition encoding_listener :: "rounding \<Rightarrow> real \<Rightarrow> run_state \<Rightarrow> run_state" where
  "encoding_listener fl p st = onProgress (ev Encoding (Math_round (fl (p * 100)))) st"

definition convertVideoToGif ::
  "rounding \<Rightarrow> browser_env \<Rightarrow> source_file \<Rightarrow> GifConversionOptions \<Rightarrow> run_state
     \<Rightarrow> (string + processed_file) \<times> run_state" where
  "convertVideoToGif fl env file options st =
     (if \<not> canvas_context env then (Inl ''Could not get canvas context'', st)
      else
        (let st = onProgress (ev Loading 0) st
         in case file_media file of
              Corrupt \<Rightarrow> (Inl (load_error file), st)
            | Media video_duration w h \<Rightarrow>
           (let st = onProgress (ev Loading 100) st;
                dims = calculateDimensions fl w h (scale options);
                totalFrames = gif_totalFrames fl options video_duration;
                st = onProgress (ev_of Extracting 0 0 totalFrames) st
            in case for_each (gifFrame fl env options video_duration totalFrames)
                      [0..<totalFrames] [] st of
                 (Inl m, st) \<Rightarrow> (Inl m, st)
               | (Inr frames, st) \<Rightarrow>
              (let st = onProgress (ev Encoding 0) st;
                   st = fold (encoding_listener fl) (gif_progress env) st;
                   baseName = replace_ext (file_name file);
                   fileName = baseName @ ''.gif'';
                   st = onProgress (ev Complete 100) st
               in (Inr \<lparr>name = fileName, blob = gif_blob env, mime = ''image/gif'',
                         originalSize = file_size file,
                         processedSize = length (gif_blob env)\<rparr>, st)))))"

text \<open>
  Names for what a run of \<^verbatim>\<open>convertVideoToGif\<close> computes for the frame \<open>i\<close> of \<open>n\<close>: the
  target \<^verbatim>\<open>time\<close>, the \<^verbatim>\<open>seekTime\<close> and the event emitted after the frame.
\<close>

definition gif_time :: "GifConversionOptions \<Rightarrow> nat \<Rightarrow> real" where
  "gif_time options i = gif_startTime options + real i * (1 / fps options)"

definition gif_seekTime :: "GifConversionOptions \<Rightarrow> real \<Rightarrow> nat \<Rightarrow> real" where
  "gif_seekTime options video_duration i = min (gif_time options i) (video_duration - 0.01)"

definition gif_event :: "rounding \<Rightarrow> nat \<Rightarrow> nat \<Rightarrow> progress_event" where
  "gif_event fl n i =
     ev_of Extracting (Math_round (fl (fl (real (i + 1) / real n) * 100))) (i + 1) n"

subsection \<open>Frame extractor\<close>

datatype position = First | Last

datatype image_format = Png | Jpeg

record FrameExtractionOptions =
  position :: position
  format :: image_format
  frame_quality :: real

definition image_extension :: "image_format \<Rightarrow> string" where
  "image_extension f = (case f of Png \<Rightarrow> ''png'' | Jpeg \<Rightarrow> ''jpeg'')"

text \<open>The seek time chosen in the \<^verbatim>\<open>onloadedmetadata\<close> handler.\<close>

definition frame_seekTime :: "position \<Rightarrow> real \<Rightarrow> real" where
  "frame_seekTime pos video_duration =
     (if pos = First then 0.01 else max 0 (video_duration - 0.1))"

definition extractFrameFromVideo ::
  "browser_env \<Rightarrow> source_file \<Rightarrow> FrameExtractionOptions \<Rightarrow> run_state
     \<Rightarrow> (string + processed_file) \<times> run_state" where
  "extractFrameFromVideo env file options st =
     (if \<not> canvas_context env then (Inl ''Could not get canvas context'', st)
      else case file_media file of
             Corrupt \<Rightarrow> (Inl (load_error file), st)
           | Media video_duration w h \<Rightarrow>
          (let seekTime = frame_seekTime (position options) video_duration;
               st = set_currentTime seekTime st;
               mimeType = (if format options = Png then ''image/png'' else ''image/jpeg'');
               extension = image_extension (format options)
           in case toBlob_result env file seekTime of
                None \<Rightarrow> (Inl ''Failed to create image from video frame'', st)
              | Some data \<Rightarrow>
                  (let baseName = replace_ext (file_name file);
                       positionSuffix =
                         (if position options = Last then ''last-frame'' else ''first-frame'');
                       fileName = baseName @ ''_'' @ positionSuffix @ ''.'' @ extension
                   in (Inr \<lparr>name = fileName, blob = data, mime = mimeType,
                             originalSize = file_size file, processedSize = length data\<rparr>,
                       st))))"

text \<open>What the extraction of one file's frame settles with; it does not depend on the state.\<close>

definition frame_outcome ::
  "browser_env \<Rightarrow> source_file \<Rightarrow> FrameExtractionOptions \<Rightarrow> string + processed_file" where
  "frame_outcome env file options =
     fst (extractFrameFromVideo env file options (start_state Map.empty))"

text \<open>
  The loop of \<^verbatim>\<open>extractFrames\<close> from the index \<open>i\<close> on: the \<^verbatim>\<open>catch\<close> logs the error and
  goes on with the next file. The calls \<^verbatim>\<open>onProgress(i + 1, files.length)\<close> are collected
  in order, beside the run state.
\<close>

fun extractFrames_loop ::
  "browser_env \<Rightarrow> FrameExtractionOptions \<Rightarrow> nat \<Rightarrow> nat \<Rightarrow> source_file list
     \<Rightarrow> processed_file list \<Rightarrow> (nat \<times> nat) list \<Rightarrow> run_state
     \<Rightarrow> processed_file list \<times> (nat \<times> nat) list \<times> run_state" where
  "extractFrames_loop env options n i [] extracted calls st = (extracted, calls, st)"
| "extractFrames_loop env options n i (file # rest) extracted calls st =
     (let calls = calls @ [(i + 1, n)]
      in case extractFrameFromVideo env file options st of
           (Inr result, st) \<Rightarrow>
             extractFrames_loop env options n (i + 1) rest (extracted @ [result]) calls st
         | (Inl error, st) \<Rightarrow>
             extractFrames_loop env options n (i + 1) rest extracted calls st)"

definition extractFrames ::
  "browser_env \<Rightarrow> source_file list \<Rightarrow> FrameExtractionOptions \<Rightarrow> run_state
     \<Rightarrow> processed_file list \<times> (nat \<times> nat) list \<times> run_state" where
  "extractFrames env files options st =
     extractFrames_loop env options (length files) 0 files [] [] st"

subsection \<open>The engine singleton\<close>















subsection \<open>Concrete inputs\<close>

definition song :: source_file where
  "song = \<lparr>file_name = ''song.mp3'', file_size = 3, file_bytes = [1, 2, 3],
           file_media = Media 10 0 0\<rparr>"



text \<open>An engine whose every command writes an output, and one whose every command throws.\<close>

definition working_engine :: ffmpeg_env where
  "working_engine = \<lparr>acquire_error = None, exec_result = (\<lambda>args. ExecWrites [7]),
                     exec_progress = (\<lambda>args. [0, 0.5, 1])\<rparr>"

definition failing_engine :: ffmpeg_env where
  "failing_engine = \<lparr>acquire_error = None, exec_result = (\<lambda>args. ExecThrows ''boom''),
                     exec_progress = (\<lambda>args. [])\<rparr>"

definition clip :: source_file where
  "clip = \<lparr>file_name = ''clip.mov'', file_size = 4, file_bytes = [1, 2, 3, 4],
           file_media = Media 2.5 101 75\<rparr>"

definition DEFAULT_OPTIONS :: GifConversionOptions where
  "DEFAULT_OPTIONS = \<lparr>fps = 10, quality = 10, scale = 0.5, startTime = 0, maxDuration = 10,
     dithering = Some FloydSteinberg, loop = 0, workers = 4\<rparr>"

definition one_fps :: GifConversionOptions where
  "one_fps = DEFAULT_OPTIONS\<lparr>fps := 1\<rparr>"

definition last_png :: FrameExtractionOptions where
  "last_png = \<lparr>position = Last, format = Png, frame_quality = 0.92\<rparr>"

definition mp3_medium :: AudioExtractionOptions where
  "mp3_medium = \<lparr>audio_format = Mp3, audio_quality = Medium\<rparr>"



definition teaser :: source_file where
  "teaser = \<lparr>file_name = ''teaser.mp4'', file_size = 2, file_bytes = [5, 6],
             file_media = Media 7 640 360\<rparr>"

definition broken :: source_file where
  "broken = \<lparr>file_name = ''broken.mp4'', file_size = 1, file_bytes = [0],
             file_media = Corrupt\<rparr>"

text \<open>A browser that answers every request, with one-byte frames.\<close>

definition working_browser :: browser_env where
  "working_browser = \<lparr>canvas_context = True, seek_settles = (\<lambda>t. True),
     toBlob_result = (\<lambda>file t. Some [9]), gif_progress = [0.5, 1], gif_blob = [71, 73, 70]\<rparr>"

section \<open>Properties\<close>

subsection \<open>GIF dimensions\<close>

lemma Math_round_half:
  "Math_round (real_of_int m / 2) * 2 = (if even m then m else m + 1)"
proof (cases "even m")
  case True
  then obtain j where "m = 2 * j" by (auto elim: evenE)
  then show ?thesis by (simp add: Math_round_def)
next
  case False
  then obtain j where m: "m = 2 * j + 1" by (auto elim: oddE)
  have "real_of_int m / 2 + 1 / 2 = real_of_int (j + 1)"
    using m by (simp add: field_simps)
  then have "Math_round (real_of_int m / 2) = j + 1"
    unfolding Math_round_def by (simp only: floor_of_int)
  with False m show ?thesis by simp
qed

lemma nearest_even:
  fixes m :: int
  assumes "10 \<le> m"
  defines "e \<equiv> (if even m then m else m + 1)"
  shows "even e" and "10 \<le> e" and "\<bar>e - m\<bar> \<le> 1" and "even k \<Longrightarrow> \<bar>e - m\<bar> \<le> \<bar>k - m\<bar>"
proof -
  show "even e" by (simp add: e_def)
  show "10 \<le> e" using assms by (simp add: e_def)
  show "\<bar>e - m\<bar> \<le> 1" by (simp add: e_def)
  show "\<bar>e - m\<bar> \<le> \<bar>k - m\<bar>" if "even k"
  proof (cases "even m")
    case True
    then show ?thesis by (simp add: e_def)
  next
    case False
    with that have "k \<noteq> m" by auto
    then show ?thesis using False by (simp add: e_def)
  qed
qed

text \<open>
  C4. For every original width, original height and scale, each returned dimension is
  obtained in this order: the product of the original dimension and the scale, as double
  arithmetic gives it, is rounded; the result is raised to the minimum of 10, giving \<open>m\<close>;
  and \<open>m\<close> is rounded to an even integer nearest to it, as twice the rounded half of \<open>m\<close>. So
  each returned dimension is even, at least 10, at distance at most 1 from \<open>m\<close>, and no even
  integer is nearer to \<open>m\<close>. This holds whatever the rounding of the product is.
\<close>

theorem calculateDimensions_even_min:
  fixes originalWidth originalHeight factor :: real and fl :: rounding
  defines "d \<equiv> calculateDimensions fl originalWidth originalHeight factor"
  defines "mw \<equiv> max (Math_round (fl (originalWidth * factor))) 10"
  defines "mh \<equiv> max (Math_round (fl (originalHeight * factor))) 10"
  shows "width d = Math_round (real_of_int mw / 2) * 2 \<and>
         height d = Math_round (real_of_int mh / 2) * 2 \<and>
         even (width d) \<and> 10 \<le> width d \<and> \<bar>width d - mw\<bar> \<le> 1 \<and>
         (\<forall>k. even k \<longrightarrow> \<bar>width d - mw\<bar> \<le> \<bar>k - mw\<bar>) \<and>
         even (height d) \<and> 10 \<le> height d \<and> \<bar>height d - mh\<bar> \<le> 1 \<and>
         (\<forall>k. even k \<longrightarrow> \<bar>height d - mh\<bar> \<le> \<bar>k - mh\<bar>)"
proof -
  have w0: "width d = Math_round (real_of_int mw / 2) * 2"
    and h0: "height d = Math_round (real_of_int mh / 2) * 2"
    by (simp_all add: d_def mw_def mh_def calculateDimensions_def Let_def)
  have w: "width d = (if even mw then mw else mw + 1)"
    and h: "height d = (if even mh then mh else mh + 1)"
    unfolding w0 h0 by (rule Math_round_half)+
  have "10 \<le> mw" and "10 \<le> mh" by (simp_all add: mw_def mh_def)
  from nearest_even [OF \<open>10 \<le> mw\<close>] nearest_even [OF \<open>10 \<le> mh\<close>]
  have "even (width d) \<and> 10 \<le> width d \<and> \<bar>width d - mw\<bar> \<le> 1 \<and>
         (\<forall>k. even k \<longrightarrow> \<bar>width d - mw\<bar> \<le> \<bar>k - mw\<bar>) \<and>
         even (height d) \<and> 10 \<le> height d \<and> \<bar>height d - mh\<bar> \<le> 1 \<and>
         (\<forall>k. even k \<longrightarrow> \<bar>height d - mh\<bar> \<le> \<bar>k - mh\<bar>)"
    unfolding w h by blast
  with w0 h0 show ?thesis by blast
qed

text \<open>
  The products \<open>101 * 0.5 = 50.5\<close> and \<open>75 * 0.5 = 37.5\<close> are exact in double arithmetic;
  they round to 51 and 38, and 51 goes to the even 52.
\<close>

theorem calculateDimensions_even_min_witness:
  "calculateDimensions exact 101 75 0.5 = \<lparr>width = 52, height = 38\<rparr> \<and>
   even (52::int) \<and> \<bar>52 - max (Math_round (exact (101 * 0.5))) 10\<bar> \<le> (1::int)"
proof -
  have d: "calculateDimensions exact 101 75 0.5 = \<lparr>width = 52, height = 38\<rparr>"
    by (simp add: calculateDimensions_def Math_round_def exact_def)
  from calculateDimensions_even_min [where fl = exact and originalWidth = 101
      and originalHeight = 75 and factor = "0.5"] show ?thesis
    unfolding d by simp
qed

subsection \<open>Evaluation on concrete inputs\<close>

lemma String_of_nat_digit: "n < 10 \<Longrightarrow> String_of_nat n = [digit_char n]"
  by (simp add: String_of_nat.simps)

lemma String_of_nat_more:
  "10 \<le> n \<Longrightarrow> String_of_nat n = String_of_nat (n div 10) @ [digit_char (n mod 10)]"
  by (subst String_of_nat.simps) simp

lemma padStart_3:
  "padStart 3 c [a] = [c, c, a]" "padStart 3 c [a, b] = [c, a, b]"
  "3 \<le> length s \<Longrightarrow> padStart 3 c s = s"
  by (simp_all add: padStart_def eval_nat_numeral)

lemmas js_eval =
  Math_round_def Math_floor_def Math_ceil_def digit_char_def padStart_3 ext_char_def
  split_pop_def or_else_def String_of_nat_digit String_of_nat_more exact_def

lemmas state_defs =
  start_state_def onProgress_def ev_def ev_of_def writeFile_def readFile_def deleteFile_def
  exec_def output_of_def set_currentTime_def

lemmas split_defs =
  splitAudio_def splitSegment_def getAudioMetadata_def planSegments_def segment_number_def
  segment_args_def audio_mime_def

subsection \<open>Segment length validation\<close>

lemma planSegments_Inl_iff:
  "(\<exists>m. planSegments fl duration segmentLength = Inl m) \<longleftrightarrow>
   (segmentLength \<le> 0 \<or> segmentLength > duration)"
  by (simp add: planSegments_def)

lemma planSegments_Inr:
  "0 < segmentLength \<Longrightarrow> segmentLength \<le> duration \<Longrightarrow>
   planSegments fl duration segmentLength = Inr (nat \<lceil>fl (duration / segmentLength)\<rceil>)"
  by (simp add: planSegments_def Math_ceil_def)

lemma splitAudio_planning_error:
  assumes "file_media file = Media duration w h"
    and "planSegments fl duration segmentLength = Inl m"
  shows "fst (splitAudio fl env file segmentLength st) = Inl m"
  using assms by (simp add: splitAudio_def getAudioMetadata_def Let_def)

text \<open>
  C6. For every total duration and unit length, the planning of the audio split fails
  exactly when the unit length is at most 0 or greater than the total duration, and
  succeeds otherwise, whatever the rounding of the quotient; such a failure is the error of
  the whole \<^verbatim>\<open>splitAudio\<close> run on a file of that duration. At the boundary, a unit length
  equal to a positive total duration is valid and gives exactly one unit: the quotient of a
  number by itself is 1, which is a double.
\<close>

theorem planSegments_validation:
  "((\<exists>m. planSegments fl duration segmentLength = Inl m) \<longleftrightarrow>
      (segmentLength \<le> 0 \<or> segmentLength > duration)) \<and>
   ((\<exists>n. planSegments fl duration segmentLength = Inr n) \<longleftrightarrow>
      (0 < segmentLength \<and> segmentLength \<le> duration)) \<and>
   (file_media audio = Media duration w h \<and> (segmentLength \<le> 0 \<or> segmentLength > duration) \<longrightarrow>
      (\<exists>m. fst (splitAudio fl env audio segmentLength st) = Inl m \<and>
           planSegments fl duration segmentLength = Inl m)) \<and>
   (0 < duration \<and> fl 1 = 1 \<longrightarrow> planSegments fl duration duration = Inr 1)"
proof (intro conjI impI)
  show "(\<exists>m. planSegments fl duration segmentLength = Inl m) \<longleftrightarrow>
      (segmentLength \<le> 0 \<or> segmentLength > duration)"
    by (rule planSegments_Inl_iff)
  show "(\<exists>n. planSegments fl duration segmentLength = Inr n) \<longleftrightarrow>
      (0 < segmentLength \<and> segmentLength \<le> duration)"
    by (auto simp: planSegments_def)
  show "\<exists>m. fst (splitAudio fl env audio segmentLength st) = Inl m \<and>
           planSegments fl duration segmentLength = Inl m"
    if "file_media audio = Media duration w h \<and> (segmentLength \<le> 0 \<or> segmentLength > duration)"
  proof -
    from that obtain m where "planSegments fl duration segmentLength = Inl m"
      using planSegments_Inl_iff by blast
    with that show ?thesis using splitAudio_planning_error by blast
  qed
  show "planSegments fl duration duration = Inr 1" if "0 < duration \<and> fl 1 = 1"
    using that by (simp add: planSegments_Inr)
qed

theorem planSegments_validation_witness:
  "planSegments exact 10 10 = Inr 1 \<and> planSegments exact 10 4 = Inr 3 \<and>
   planSegments exact 10 0 = Inl ''Segment length must be greater than 0'' \<and>
   planSegments exact 10 11 = Inl ''Segment length cannot be greater than audio duration'' \<and>
   fst (splitAudio exact working_engine song 11 (start_state Map.empty)) =
     Inl ''Segment length cannot be greater than audio duration''"
proof -
  have e: "planSegments exact 10 4 = Inr 3"
    "planSegments exact 10 0 = Inl ''Segment length must be greater than 0''"
    "planSegments exact 10 11 = Inl ''Segment length cannot be greater than audio duration''"
    by (simp_all add: planSegments_def Math_ceil_def exact_def)
  have m: "file_media song = Media 10 0 0" and one: "(0::real) < 10 \<and> exact 1 = 1"
    by (simp_all add: song_def exact_def)
  from planSegments_validation [where fl = exact and duration = 10 and segmentLength = 11
      and audio = song and w = 0 and h = 0 and env = working_engine
      and st = "start_state Map.empty"] m
  obtain m where "fst (splitAudio exact working_engine song 11 (start_state Map.empty)) = Inl m"
    and "planSegments exact 10 11 = Inl m" by force
  then have big: "fst (splitAudio exact working_engine song 11 (start_state Map.empty)) =
      Inl ''Segment length cannot be greater than audio duration''"
    using e(3) by simp
  from planSegments_validation [where fl = exact and duration = 10] one
  have "planSegments exact 10 10 = Inr 1" by blast
  with big e show ?thesis by simp
qed

subsection \<open>Engine progress during audio extraction\<close>

lemma extraction_progress_unit:
  assumes "0 \<le> p" and "p \<le> 1"
  shows "Math_floor (p * 0.5) = 0" and "extraction_progress p = 40"
proof -
  have "0 \<le> p * 0.5" and "p * 0.5 < 1" using assms by simp_all
  then show "Math_floor (p * 0.5) = 0" unfolding Math_floor_def by linarith
  then show "extraction_progress p = 40" by (simp add: extraction_progress_def)
qed

lemma fold_extraction_listener:
  assumes "\<forall>p \<in> set ps. 0 \<le> p \<and> p \<le> 1"
  shows "fold extraction_listener ps st =
         st\<lparr>events := events st @ replicate (length ps) (ev Extracting 40)\<rparr>"
  using assms
proof (induction ps arbitrary: st)
  case Nil
  then show ?case by simp
next
  case (Cons p ps)
  then have "extraction_progress p = 40" by (simp add: extraction_progress_unit)
  with Cons show ?case
    by (simp add: extraction_listener_def onProgress_def replicate_append_same [symmetric]
        del: replicate_append_same)
qed

text \<open>
  C10. During audio extraction, for every engine progress value \<open>p\<close> in \<open>[0, 1]\<close> the
  percent of the emitted extracting-stage event is \<open>40 + floor (p * 0.5)\<close>, and
  \<open>floor (p * 0.5) = 0\<close>: the event reports exactly 40, and so does every event that the
  listener emits for a sequence of such values, so the band from 40 to 90 is not traversed.
\<close>

theorem extraction_progress_stays_40:
  assumes "\<forall>p \<in> set ps. 0 \<le> p \<and> p \<le> 1"
  shows "(\<forall>p \<in> set ps. extraction_progress p = 40 + \<lfloor>p * 0.5\<rfloor> \<and> \<lfloor>p * 0.5\<rfloor> = 0 \<and>
            events (extraction_listener p st) =
              events st @ [\<lparr>stage = Extracting, progress = 40, current = None, total = None\<rparr>]) \<and>
         events (fold extraction_listener ps st) =
           events st @ replicate (length ps)
             \<lparr>stage = Extracting, progress = 40, current = None, total = None\<rparr>"
proof (intro conjI ballI)
  fix p assume "p \<in> set ps"
  with assms have p: "0 \<le> p" "p \<le> 1" by auto
  show "extraction_progress p = 40 + \<lfloor>p * 0.5\<rfloor>"
    by (simp add: extraction_progress_def Math_floor_def)
  show "\<lfloor>p * 0.5\<rfloor> = 0"
    using extraction_progress_unit(1) [OF p] by (simp add: Math_floor_def)
  show "events (extraction_listener p st) =
      events st @ [\<lparr>stage = Extracting, progress = 40, current = None, total = None\<rparr>]"
    using extraction_progress_unit(2) [OF p]
    by (simp add: extraction_listener_def onProgress_def ev_def)
next
  show "events (fold extraction_listener ps st) =
      events st @ replicate (length ps)
        \<lparr>stage = Extracting, progress = 40, current = None, total = None\<rparr>"
    using fold_extraction_listener [OF assms] by (simp add: ev_def)
qed

theorem extraction_progress_stays_40_witness:
  "events (fold extraction_listener [0, 0.5, 1] (start_state Map.empty)) =
     [\<lparr>stage = Extracting, progress = 40, current = None, total = None\<rparr>,
      \<lparr>stage = Extracting, progress = 40, current = None, total = None\<rparr>,
      \<lparr>stage = Extracting, progress = 40, current = None, total = None\<rparr>]"
proof -
  have "\<forall>p \<in> set [0, 0.5, 1::real]. 0 \<le> p \<and> p \<le> 1" by simp
  from extraction_progress_stays_40 [OF this, of "start_state Map.empty"] show ?thesis
    by (simp add: start_state_def eval_nat_numeral)
qed

subsection \<open>Loops that ran to their end\<close>

lemma for_each_Inr_fold:
  assumes "for_each body is acc st = (Inr rs, st')"
    and "\<And>i s r s'. i \<in> set is \<Longrightarrow> body i s = (Inr r, s') \<Longrightarrow> f s' = u i (f s)"
  shows "f st' = fold u is (f st)"
  using assms
proof (induction "is" arbitrary: acc st)
  case Nil
  then show ?case by simp
next
  case (Cons i "is")
  from Cons.prems(1) obtain r s1 where b: "body i st = (Inr r, s1)"
    and rest: "for_each body is (acc @ [r]) s1 = (Inr rs, st')"
    by (auto split: prod.splits sum.splits)
  from Cons.prems(2) [of i st r s1] b have "f s1 = u i (f st)" by simp
  moreover from Cons.IH [OF rest] Cons.prems(2) have "f st' = fold u is (f s1)" by simp
  ultimately show ?case by simp
qed

lemma for_each_Inr_results:
  assumes "for_each body is acc st = (Inr rs, st')"
    and "\<And>i s r s'. i \<in> set is \<Longrightarrow> body i s = (Inr r, s') \<Longrightarrow> k r = h i"
  shows "map k rs = map k acc @ map h is"
  using assms
proof (induction "is" arbitrary: acc st)
  case Nil
  then show ?case by simp
next
  case (Cons i "is")
  from Cons.prems(1) obtain r s1 where b: "body i st = (Inr r, s1)"
    and rest: "for_each body is (acc @ [r]) s1 = (Inr rs, st')"
    by (auto split: prod.splits sum.splits)
  from Cons.prems(2) [of i st r s1] b have "k r = h i" by simp
  moreover from Cons.IH [OF rest] Cons.prems(2)
  have "map k rs = map k (acc @ [r]) @ map h is" by simp
  ultimately show ?case by simp
qed

lemma fold_snoc_trace: "fold (\<lambda>i l. l @ [g i]) is l = l @ map g is"
  by (induction "is" arbitrary: l) simp_all

lemma for_each_Inr_trace:
  assumes "for_each body is acc st = (Inr rs, st')"
    and "\<And>i s r s'. i \<in> set is \<Longrightarrow> body i s = (Inr r, s') \<Longrightarrow> f s' = f s @ [g i]"
  shows "f st' = f st @ map g is"
  using for_each_Inr_fold [OF assms(1), of f "\<lambda>i l. l @ [g i]"] assms(2)
  by (simp add: fold_snoc_trace)

lemma fold_ignore: "fold (\<lambda>i x. x) js v = v"
  by (induction js) simp_all

lemma for_each_Inr_same:
  assumes "for_each body is acc st = (Inr rs, st')"
    and "\<And>i s r s'. i \<in> set is \<Longrightarrow> body i s = (Inr r, s') \<Longrightarrow> f s' = f s"
  shows "f st' = f st"
  using for_each_Inr_fold [OF assms(1), of f "\<lambda>i x. x"] assms(2)
  by (simp add: fold_ignore)

subsection \<open>Audio split runs that succeed\<close>

lemma last_segment_args:
  "output_of (segment_args inputFileName fileExtension segmentLength i) =
   ''output-segment-'' @ segment_number i @ ''.'' @ fileExtension"
  by (simp add: output_of_def segment_args_def)

lemma splitSegment_Inr:
  assumes "splitSegment fl env file segmentLength n i st = (Inr processed, st')"
  shows "events st' = events st @ [split_event fl n i]"
    and "commands st' = commands st @
           [segment_args (''input.'' @ split_extension file) (split_extension file) segmentLength i]"
    and "seeks st' = seeks st"
    and "fs st' = (fs st)(split_output file i := None)"
    and "name processed = replace_ext (file_name file) @ ''-segment-'' @ segment_number i @
           ''.'' @ split_extension file"
  using assms
  by (auto simp: splitSegment_def onProgress_def writeFile_def readFile_def deleteFile_def
      exec_def last_segment_args split_extension_def split_output_def split_event_def Let_def
      fold_ignore
      split: exec_outcome.splits option.splits if_splits)

lemma splitAudio_Inr:
  assumes run: "splitAudio fl env file segmentLength st = (Inr processedFiles, st')"
    and media: "file_media file = Media duration w h"
  defines "n \<equiv> nat \<lceil>fl (duration / segmentLength)\<rceil>"
  shows "0 < segmentLength" and "segmentLength \<le> duration"
    and "events st' = events st @ [ev Loading 0, ev Loading 10, ev_of Splitting 20 0 n] @
           map (split_event fl n) [0..<n] @ [ev_of Complete 100 n n]"
    and "commands st' = commands st @
           map (segment_args (split_input file) (split_extension file) segmentLength) [0..<n]"
    and "map name processedFiles =
           map (\<lambda>i. replace_ext (file_name file) @ ''-segment-'' @ segment_number i @
                  ''.'' @ split_extension file) [0..<n]"
    and "fs st' = (fold (\<lambda>i m. m(split_output file i := None)) [0..<n]
                    ((fs st)(split_input file \<mapsto> file_bytes file)))(split_input file := None)"
proof -
  from run media have plan: "planSegments fl duration segmentLength = Inr n"
    and pos: "0 < segmentLength" and le: "segmentLength \<le> duration"
    by (auto simp: splitAudio_def getAudioMetadata_def planSegments_def Math_ceil_def n_def Let_def
        split: if_splits)
  define st1 where "st1 = onProgress (ev_of Splitting 20 0 n)
    (writeFile (split_input file) (file_bytes file)
      (onProgress (ev Loading 10) (onProgress (ev Loading 0) st)))"
  from run media plan obtain st2 st3
    where loop: "for_each (splitSegment fl env file segmentLength n) [0..<n] [] st1 =
                   (Inr processedFiles, st2)"
      and del: "deleteFile (split_input file) st2 = (Inr (), st3)"
      and fin: "st' = onProgress (ev_of Complete 100 n n) st3"
    by (auto simp: splitAudio_def getAudioMetadata_def Let_def st1_def split_input_def
        split_extension_def split: option.splits prod.splits sum.splits)
  from del have st3: "events st3 = events st2" "commands st3 = commands st2"
    "fs st3 = (fs st2)(split_input file := None)"
    by (auto simp: deleteFile_def split: option.splits)
  have ev2: "events st2 = events st1 @ map (split_event fl n) [0..<n]"
    by (rule for_each_Inr_trace [OF loop]) (rule splitSegment_Inr(1))
  have cmd2: "commands st2 = commands st1 @
      map (segment_args (split_input file) (split_extension file) segmentLength) [0..<n]"
    by (rule for_each_Inr_trace [OF loop])
      (simp add: splitSegment_Inr(2) split_input_def)
  have fs2: "fs st2 = fold (\<lambda>i m. m(split_output file i := None)) [0..<n] (fs st1)"
    by (rule for_each_Inr_fold [OF loop]) (rule splitSegment_Inr(4))
  show "0 < segmentLength" by (rule pos)
  show "segmentLength \<le> duration" by (rule le)
  show "events st' = events st @ [ev Loading 0, ev Loading 10, ev_of Splitting 20 0 n] @
           map (split_event fl n) [0..<n] @ [ev_of Complete 100 n n]"
    by (simp add: fin st3 ev2 st1_def onProgress_def writeFile_def)
  show "commands st' = commands st @
           map (segment_args (split_input file) (split_extension file) segmentLength) [0..<n]"
    by (simp add: fin st3 cmd2 st1_def onProgress_def writeFile_def)
  show "map name processedFiles =
           map (\<lambda>i. replace_ext (file_name file) @ ''-segment-'' @ segment_number i @
                  ''.'' @ split_extension file) [0..<n]"
    using for_each_Inr_results [OF loop, of name] splitSegment_Inr(5) by simp
  show "fs st' = (fold (\<lambda>i m. m(split_output file i := None)) [0..<n]
                    ((fs st)(split_input file \<mapsto> file_bytes file)))(split_input file := None)"
    by (simp add: fin st3 fs2 st1_def onProgress_def writeFile_def)
qed

subsection \<open>GIF conversions that succeed\<close>

lemma gifFrame_Inr:
  assumes "gifFrame fl env options video_duration n i st = (Inr delay, st')"
  shows "events st' = events st @ [gif_event fl n i]"
    and "seeks st' = seeks st @ [gif_seekTime options video_duration i]"
    and "commands st' = commands st" and "fs st' = fs st"
  using assms
  by (auto simp: gifFrame_def seekToTime_def set_currentTime_def onProgress_def gif_event_def
      gif_seekTime_def gif_time_def Let_def split: if_splits)

lemma fold_encoding_listener:
  "fold (encoding_listener fl) ps st =
   st\<lparr>events := events st @ map (\<lambda>p. ev Encoding (Math_round (fl (p * 100)))) ps\<rparr>"
  by (induction ps arbitrary: st) (simp_all add: encoding_listener_def onProgress_def)

lemma convertVideoToGif_Inr:
  assumes run: "convertVideoToGif fl env file options st = (Inr gif, st')"
    and media: "file_media file = Media video_duration w h"
  defines "n \<equiv> gif_totalFrames fl options video_duration"
  shows "events st' = events st @ [ev Loading 0, ev Loading 100, ev_of Extracting 0 0 n] @
           map (gif_event fl n) [0..<n] @ [ev Encoding 0] @
           map (\<lambda>p. ev Encoding (Math_round (fl (p * 100)))) (gif_progress env) @
           [ev Complete 100]"
    and "seeks st' = seeks st @ map (gif_seekTime options video_duration) [0..<n]"
    and "name gif = replace_ext (file_name file) @ ''.gif''"
proof -
  define st1 where "st1 = onProgress (ev_of Extracting 0 0 n)
    (onProgress (ev Loading 100) (onProgress (ev Loading 0) st))"
  from run media obtain frames st2
    where loop: "for_each (gifFrame fl env options video_duration n) [0..<n] [] st1 = (Inr frames, st2)"
      and fin: "st' = onProgress (ev Complete 100)
                  (fold (encoding_listener fl) (gif_progress env) (onProgress (ev Encoding 0) st2))"
      and nm: "name gif = replace_ext (file_name file) @ ''.gif''"
    by (auto simp: convertVideoToGif_def Let_def st1_def n_def
        split: if_splits prod.splits sum.splits)
  have ev2: "events st2 = events st1 @ map (gif_event fl n) [0..<n]"
    by (rule for_each_Inr_trace [OF loop]) (rule gifFrame_Inr(1))
  have sk2: "seeks st2 = seeks st1 @ map (gif_seekTime options video_duration) [0..<n]"
    by (rule for_each_Inr_trace [OF loop]) (rule gifFrame_Inr(2))
  show "events st' = events st @ [ev Loading 0, ev Loading 100, ev_of Extracting 0 0 n] @
           map (gif_event fl n) [0..<n] @ [ev Encoding 0] @
           map (\<lambda>p. ev Encoding (Math_round (fl (p * 100)))) (gif_progress env) @
           [ev Complete 100]"
    by (simp add: fin fold_encoding_listener ev2 st1_def onProgress_def)
  show "seeks st' = seeks st @ map (gif_seekTime options video_duration) [0..<n]"
    by (simp add: fin fold_encoding_listener sk2 st1_def onProgress_def)
  show "name gif = replace_ext (file_name file) @ ''.gif''" by (rule nm)
qed

subsection \<open>The planned units of a run\<close>

lemma split_input_no_option:
  "split_input file \<noteq> ''-ss''" "split_input file \<noteq> ''-t''"
  by (simp_all add: split_input_def)

lemma unit_of_segment_args:
  "unit_start (segment_args (split_input file) fileExtension segmentLength i) =
     Some (real i * segmentLength)"
  "unit_duration (segment_args (split_input file) fileExtension segmentLength i) =
     Some segmentLength"
  by (simp_all add: unit_start_def unit_duration_def segment_args_def split_input_no_option)

lemma sum_durations_segments:
  "sum_durations (map (segment_args (split_input file) fileExtension segmentLength) js) =
   real (length js) * segmentLength"
  by (induction js) (simp_all add: sum_durations_def unit_of_segment_args algebra_simps)

text \<open>
  C1, as amended. A run of the audio split that succeeds on a file of duration \<open>d\<close> with
  segment length \<open>s\<close> has \<open>0 < s \<le> d\<close> and gives the engine exactly \<open>ceil q\<close> commands, in
  order, where \<open>q\<close> is the quotient \<open>d / s\<close> as double arithmetic gives it; the \<open>i\<close>-th command
  has the start offset \<open>i * s\<close> and the nominal duration \<open>s\<close>, the last one too, so that the
  nominal durations sum to \<open>ceil q * s\<close>. A GIF conversion that succeeds samples
  \<open>max 1 (floor p)\<close> frames, where \<open>p\<close> is the product of the clip's length and the frame rate
  as double arithmetic gives it, the clip's length being the difference of the smaller of
  \<open>startTime + maxDuration\<close> and the video's duration, and the start time; the frames have the
  target times \<open>startTime + i / fps\<close>, each sought at the smaller of the target and the video's
  duration less 0.01.
\<close>

theorem planned_units:
  "(file_media audio = Media d w h \<and>
    splitAudio fl env audio s (start_state files) = (Inr processedFiles, st') \<longrightarrow>
      0 < s \<and> s \<le> d \<and> planSegments fl d s = Inr (nat \<lceil>fl (d / s)\<rceil>) \<and>
      length (commands st') = nat \<lceil>fl (d / s)\<rceil> \<and>
      map unit_start (commands st') =
        map (\<lambda>i. Some (real i * s)) [0..<nat \<lceil>fl (d / s)\<rceil>] \<and>
      map unit_duration (commands st') = replicate (nat \<lceil>fl (d / s)\<rceil>) (Some s) \<and>
      sum_durations (commands st') = real (nat \<lceil>fl (d / s)\<rceil>) * s) \<and>
   (file_media video = Media vd vw vh \<and>
    convertVideoToGif fl browser video options (start_state files) = (Inr gif, gst') \<longrightarrow>
      gif_totalFrames fl options vd =
        nat (max 1 \<lfloor>fl (fl (min (fl (gif_startTime options + maxDuration options)) vd
                                - gif_startTime options) * fps options)\<rfloor>) \<and>
      length (seeks gst') = gif_totalFrames fl options vd \<and>
      seeks gst' =
        map (\<lambda>i. min (gif_startTime options + real i * (1 / fps options)) (vd - 0.01))
          [0..<gif_totalFrames fl options vd])"
proof (intro conjI impI)
  assume a: "file_media audio = Media d w h \<and>
    splitAudio fl env audio s (start_state files) = (Inr processedFiles, st')"
  then have run: "splitAudio fl env audio s (start_state files) = (Inr processedFiles, st')"
    and media: "file_media audio = Media d w h" by simp_all
  let ?n = "nat \<lceil>fl (d / s)\<rceil>"
  note r = splitAudio_Inr [OF run media]
  show pos: "0 < s" and le: "s \<le> d" by (rule r)+
  show "planSegments fl d s = Inr ?n" using pos le by (rule planSegments_Inr)
  have cmds: "commands st' =
      map (segment_args (split_input audio) (split_extension audio) s) [0..<?n]"
    using r(4) by (simp add: start_state_def)
  show "length (commands st') = ?n" by (simp add: cmds)
  show "map unit_start (commands st') = map (\<lambda>i. Some (real i * s)) [0..<?n]"
    by (simp add: cmds unit_of_segment_args comp_def)
  show "map unit_duration (commands st') = replicate ?n (Some s)"
    by (simp add: cmds unit_of_segment_args comp_def map_replicate_const)
  show "sum_durations (commands st') = real ?n * s"
    by (simp add: cmds sum_durations_segments)
next
  assume a: "file_media video = Media vd vw vh \<and>
    convertVideoToGif fl browser video options (start_state files) = (Inr gif, gst')"
  then have run: "convertVideoToGif fl browser video options (start_state files) = (Inr gif, gst')"
    and media: "file_media video = Media vd vw vh" by simp_all
  show "gif_totalFrames fl options vd =
      nat (max 1 \<lfloor>fl (fl (min (fl (gif_startTime options + maxDuration options)) vd
                              - gif_startTime options) * fps options)\<rfloor>)"
    by (simp add: gif_totalFrames_def Math_floor_def Let_def)
  show s: "seeks gst' =
      map (\<lambda>i. min (gif_startTime options + real i * (1 / fps options)) (vd - 0.01))
        [0..<gif_totalFrames fl options vd]"
    using convertVideoToGif_Inr(2) [OF run media]
    by (simp add: start_state_def gif_seekTime_def gif_time_def)
  show "length (seeks gst') = gif_totalFrames fl options vd"
    unfolding s by simp
qed

lemma song_split_result:
  "fst (splitAudio exact working_engine song 8 (start_state Map.empty)) =
     Inr [\<lparr>name = ''song-segment-001.mp3'', blob = [7], mime = ''audio/mpeg'',
            originalSize = 3, processedSize = 1\<rparr>,
          \<lparr>name = ''song-segment-002.mp3'', blob = [7], mime = ''audio/mpeg'',
            originalSize = 3, processedSize = 1\<rparr>]"
  by (simp add: split_defs state_defs js_eval song_def working_engine_def Let_def upt_conv_Cons
      fold_ignore)

lemma song_split_commands:
  "commands (snd (splitAudio exact working_engine song 8 (start_state Map.empty))) =
     [[Str ''-i'', Str ''input.mp3'', Str ''-ss'', Num 0, Str ''-t'', Num 8,
       Str ''-acodec'', Str ''copy'', Str ''-y'', Str ''output-segment-001.mp3''],
      [Str ''-i'', Str ''input.mp3'', Str ''-ss'', Num 8, Str ''-t'', Num 8,
       Str ''-acodec'', Str ''copy'', Str ''-y'', Str ''output-segment-002.mp3'']]"
  by (simp add: split_defs state_defs js_eval song_def working_engine_def Let_def upt_conv_Cons
      fold_ignore)

lemmas gif_defs =
  convertVideoToGif_def gifFrame_def seekToTime_def gif_totalFrames_def gif_startTime_def
  encoding_listener_def

lemma clip_gif_result:
  "fst (convertVideoToGif exact working_browser clip one_fps (start_state Map.empty)) =
     Inr \<lparr>name = ''clip.gif'', blob = [71, 73, 70], mime = ''image/gif'',
           originalSize = 4, processedSize = 3\<rparr>"
  by (simp add: gif_defs state_defs js_eval clip_def working_browser_def one_fps_def
      DEFAULT_OPTIONS_def Let_def upt_conv_Cons)

lemma clip_gif_events:
  "map progress (events (snd (convertVideoToGif exact working_browser clip one_fps
      (start_state Map.empty)))) = [0, 100, 0, 50, 100, 0, 50, 100, 100]"
  by (simp add: gif_defs state_defs js_eval clip_def working_browser_def one_fps_def
      DEFAULT_OPTIONS_def Let_def upt_conv_Cons)

lemma clip_gif_frames: "gif_totalFrames exact one_fps 2.5 = 2"
  by (simp add: gif_totalFrames_def gif_startTime_def one_fps_def DEFAULT_OPTIONS_def js_eval)

theorem planned_units_witness:
  "map unit_start (commands (snd (splitAudio exact working_engine song 8 (start_state Map.empty)))) =
     [Some 0, Some 8] \<and>
   map unit_duration (commands (snd (splitAudio exact working_engine song 8 (start_state Map.empty)))) =
     [Some 8, Some 8] \<and>
   seeks (snd (convertVideoToGif exact working_browser clip one_fps (start_state Map.empty))) = [0, 1]"
proof -
  let ?r = "splitAudio exact working_engine song 8 (start_state Map.empty)"
  let ?g = "convertVideoToGif exact working_browser clip one_fps (start_state Map.empty)"
  have run: "file_media song = Media 10 0 0 \<and> ?r = (Inr (projr (fst ?r)), snd ?r)"
    by (simp add: prod_eq_iff song_split_result) (simp add: song_def)
  have gif: "file_media clip = Media 2.5 101 75 \<and> ?g = (Inr (projr (fst ?g)), snd ?g)"
    by (simp add: prod_eq_iff clip_gif_result) (simp add: clip_def)
  note pu = planned_units [where fl = exact and audio = song and d = 10 and w = 0 and h = 0
      and s = 8 and env = working_engine and files = "Map.empty" and video = clip and vd = "2.5"
      and vw = 101 and vh = 75 and browser = working_browser and options = one_fps
      and processedFiles = "projr (fst ?r)" and st' = "snd ?r"
      and gif = "projr (fst ?g)" and gst' = "snd ?g"]
  have n: "nat \<lceil>exact (10 / 8)\<rceil> = 2" by (simp add: exact_def)
  have two: "[0..<2] = [0, 1]"
    by (simp add: upt_conv_Cons)
  from pu run have "map unit_start (commands (snd ?r)) =
      map (\<lambda>i. Some (real i * 8)) [0..<nat \<lceil>exact (10 / 8)\<rceil>]"
    and "map unit_duration (commands (snd ?r)) = replicate (nat \<lceil>exact (10 / 8)\<rceil>) (Some 8)"
    by blast+
  then have a: "map unit_start (commands (snd ?r)) = [Some 0, Some 8]"
    and b: "map unit_duration (commands (snd ?r)) = [Some 8, Some 8]"
    unfolding n two by (simp_all add: eval_nat_numeral)
  from pu gif have "seeks (snd ?g) =
      map (\<lambda>i. min (gif_startTime one_fps + real i * (1 / fps one_fps)) (2.5 - 0.01))
        [0..<gif_totalFrames exact one_fps 2.5]"
    by blast
  then have c: "seeks (snd ?g) = [0, 1]"
    unfolding clip_gif_frames two
    by (simp add: gif_startTime_def one_fps_def DEFAULT_OPTIONS_def)
  from a b c show ?thesis by blast
qed

text \<open>
  C1 as stated fails. A file of 10 seconds split at 8 seconds gives two commands, each with
  the nominal duration 8: their sum is 16, not the total duration. A clip of 2.5 seconds
  sampled at one frame a second gives two frames, not \<open>ceil (2.5 / 1) = 3\<close>. All the numbers
  of these two runs are computed without rounding.
\<close>

theorem planned_units_counterexample:
  "media_duration (file_media song) = 10 \<and>
   sum_durations (commands (snd (splitAudio exact working_engine song 8 (start_state Map.empty)))) = 16 \<and>
   media_duration (file_media clip) = 2.5 \<and> 1 / fps one_fps = 1 \<and>
   int (gif_totalFrames exact one_fps (media_duration (file_media clip))) = 2 \<and>
   \<lceil>media_duration (file_media clip) / (1 / fps one_fps)\<rceil> = 3"
proof -
  have total: "media_duration (file_media song) = 10" by (simp add: song_def)
  have sum: "sum_durations (commands (snd (splitAudio exact working_engine song 8
      (start_state Map.empty)))) = 16"
    by (simp add: song_split_commands sum_durations_def unit_duration_def)
  have len: "media_duration (file_media clip) = 2.5" by (simp add: clip_def)
  have unit: "1 / fps one_fps = 1" by (simp add: one_fps_def DEFAULT_OPTIONS_def)
  have frames: "int (gif_totalFrames exact one_fps (media_duration (file_media clip))) = 2"
    unfolding len using clip_gif_frames by simp
  have units: "\<lceil>media_duration (file_media clip) / (1 / fps one_fps)\<rceil> = 3"
    unfolding len unit by simp
  from total sum len unit frames units show ?thesis by blast
qed

subsection \<open>Audio extractions and frame extractions that succeed\<close>

lemma fold_extraction_listener_events:
  "fold extraction_listener ps st =
   st\<lparr>events := events st @ map (\<lambda>p. ev Extracting (extraction_progress p)) ps\<rparr>"
  by (induction ps arbitrary: st) (simp_all add: extraction_listener_def onProgress_def)

lemma last_extraction_args:
  "output_of (extraction_args inputFileName outputFileName options) = outputFileName"
  by (simp add: output_of_def extraction_args_def)

lemma extractAudioFromVideo_Inr:
  assumes run: "extractAudioFromVideo env file options st = (Inr processed, st')"
  defines "args \<equiv> extraction_args (extract_input file) (extract_output options) options"
  shows "events st' = events st @ [ev Loading 0, ev Loading 20, ev Extracting 40] @
           map (\<lambda>p. ev Extracting (extraction_progress p)) (exec_progress env args) @
           [ev Encoding 90, ev Complete 100]"
    and "name processed = replace_ext (file_name file) @ ''.'' @ format_name (audio_format options)"
    and "commands st' = commands st @ [args]"
    and "fs st' = ((fs st)(extract_input file := None))(extract_output options := None)"
  using run
  by (auto simp: extractAudioFromVideo_def args_def extract_input_def extract_output_def
      onProgress_def writeFile_def readFile_def deleteFile_def exec_def last_extraction_args
      fold_extraction_listener_events Let_def
      split: option.splits exec_outcome.splits if_splits)

lemma extractFrameFromVideo_Inr:
  assumes "extractFrameFromVideo env file options st = (Inr processed, st')"
  shows "name processed = replace_ext (file_name file) @ ''_'' @
           (if position options = Last then ''last-frame'' else ''first-frame'') @ ''.'' @
           image_extension (format options)"
    and "seeks st' = seeks st @
           [frame_seekTime (position options) (media_duration (file_media file))]"
    and "file_media file \<noteq> Corrupt"
  using assms
  by (auto simp: extractFrameFromVideo_def set_currentTime_def Let_def
      split: if_splits media.splits option.splits)

subsection \<open>Artifact names\<close>

lemma replace_ext_strips:
  assumes "ext \<noteq> []" and "list_all ext_char ext"
  shows "replace_ext (stem @ CHR ''.'' # ext) = stem"
  using assms by (induction stem) (simp_all add: ext_char_def)

lemma replace_ext_keeps:
  assumes "\<not> (\<exists>stem ext. s = stem @ CHR ''.'' # ext \<and> ext \<noteq> [] \<and> list_all ext_char ext)"
  shows "replace_ext s = s"
  using assms
proof (induction s)
  case Nil
  then show ?case by simp
next
  case (Cons c cs)
  have "\<not> (\<exists>stem ext. cs = stem @ CHR ''.'' # ext \<and> ext \<noteq> [] \<and> list_all ext_char ext)"
  proof
    assume "\<exists>stem ext. cs = stem @ CHR ''.'' # ext \<and> ext \<noteq> [] \<and> list_all ext_char ext"
    then obtain stem ext where "c # cs = (c # stem) @ CHR ''.'' # ext" "ext \<noteq> []"
      "list_all ext_char ext" by auto
    with Cons.prems show False by blast
  qed
  then have "replace_ext cs = cs" by (rule Cons.IH)
  moreover have "\<not> (c = CHR ''.'' \<and> cs \<noteq> [] \<and> list_all ext_char cs)"
    using Cons.prems [simplified] by (metis append_Nil)
  ultimately show ?case by simp
qed

lemma segment_number_digits:
  assumes "i < 999"
  shows "segment_number i =
    [digit_char ((i + 1) div 100), digit_char ((i + 1) div 10), digit_char (i + 1)]"
proof -
  define n where "n = i + 1"
  have zero: "digit_char 0 = CHR ''0''" by (simp add: digit_char_def)
  consider "n < 10" | "10 \<le> n" "n < 100" | "100 \<le> n" "n < 1000"
    using assms by (auto simp: n_def) linarith
  then have "padStart 3 (CHR ''0'') (String_of_nat n) =
    [digit_char (n div 100), digit_char (n div 10), digit_char n]"
  proof cases
    case 1
    then show ?thesis by (simp add: String_of_nat_digit padStart_3 zero)
  next
    case 2
    then have "String_of_nat n = [digit_char (n div 10), digit_char (n mod 10)]"
      by (simp add: String_of_nat_more String_of_nat_digit)
    with 2 show ?thesis by (simp add: padStart_3 zero digit_char_def)
  next
    case 3
    then have a: "10 \<le> n div 10" and b: "n div 10 div 10 < 10" by simp_all
    from 3 have "String_of_nat n = String_of_nat (n div 10) @ [digit_char (n mod 10)]"
      by (simp add: String_of_nat_more)
    also from a b have "String_of_nat (n div 10) =
        [digit_char (n div 10 div 10), digit_char (n div 10 mod 10)]"
      by (simp add: String_of_nat_more String_of_nat_digit)
    finally show ?thesis by (simp add: padStart_3 digit_char_def div_mult2_eq [symmetric])
  qed
  then show ?thesis by (simp add: segment_number_def n_def)
qed

text \<open>
  What holds of the names for all inputs: each artifact's name is the source name with its
  trailing extension stripped (a final dot followed by one or more characters other than dot
  and slash), the suffix of the tool, a dot and an extension: \<open>_first-frame\<close> or
  \<open>_last-frame\<close> and \<open>png\<close> or \<open>jpeg\<close> for a frame, \<open>-segment-\<close> and the number of the segment,
  counted from 1 and padded with zeros to three digits, for a segment of an audio split,
  no suffix and \<open>mp3\<close> or \<open>wav\<close> for an extracted audio track, no suffix and \<open>gif\<close> for a GIF.
  The extension of a segment is the text after the last dot of the source name, the whole
  name when it has no dot, and \<open>mp3\<close> when that text is empty.
\<close>

lemma names_of_artifacts:
  "(extractFrameFromVideo browser video options st = (Inr frame, st') \<longrightarrow>
      name frame = replace_ext (file_name video) @ ''_'' @
        (if position options = Last then ''last-frame'' else ''first-frame'') @ ''.'' @
        (if format options = Png then ''png'' else ''jpeg'') \<and>
      (file_name video = ''clip.mov'' \<and> position options = Last \<and> format options = Png \<longrightarrow>
         name frame = ''clip_last-frame.png'')) \<and>
   (file_media audio = Media d w h \<and> splitAudio fl env audio s ast = (Inr segments, ast') \<longrightarrow>
      map name segments =
        map (\<lambda>i. replace_ext (file_name audio) @ ''-segment-'' @
                  padStart 3 (CHR ''0'') (String_of_nat (i + 1)) @ ''.'' @
                  (if last (split_dot [] (file_name audio)) = [] then ''mp3''
                   else last (split_dot [] (file_name audio))))
          [0..<nat \<lceil>fl (d / s)\<rceil>]) \<and>
   (i < 999 \<longrightarrow>
      padStart 3 (CHR ''0'') (String_of_nat (i + 1)) =
        [digit_char ((i + 1) div 100), digit_char ((i + 1) div 10), digit_char (i + 1)]) \<and>
   (ext \<noteq> [] \<and> list_all ext_char ext \<longrightarrow> replace_ext (stem @ CHR ''.'' # ext) = stem) \<and>
   (extractAudioFromVideo env source aoptions vst = (Inr track, vst') \<longrightarrow>
      name track = replace_ext (file_name source) @ ''.'' @
        (if audio_format aoptions = Mp3 then ''mp3'' else ''wav'')) \<and>
   (file_media movie = Media md mw mh \<and>
    convertVideoToGif fl browser movie goptions gst = (Inr gif, gst') \<longrightarrow>
      name gif = replace_ext (file_name movie) @ ''.gif'')"
proof (intro conjI impI)
  assume run: "extractFrameFromVideo browser video options st = (Inr frame, st')"
  show n: "name frame = replace_ext (file_name video) @ ''_'' @
        (if position options = Last then ''last-frame'' else ''first-frame'') @ ''.'' @
        (if format options = Png then ''png'' else ''jpeg'')"
    using extractFrameFromVideo_Inr(1) [OF run]
    by (cases "format options") (simp_all add: image_extension_def)
  assume "file_name video = ''clip.mov'' \<and> position options = Last \<and> format options = Png"
  with n show "name frame = ''clip_last-frame.png''"
    by (simp add: ext_char_def)
next
  assume "file_media audio = Media d w h \<and> splitAudio fl env audio s ast = (Inr segments, ast')"
  then have "map name segments =
      map (\<lambda>i. replace_ext (file_name audio) @ ''-segment-'' @ segment_number i @
                ''.'' @ split_extension audio) [0..<nat \<lceil>fl (d / s)\<rceil>]"
    using splitAudio_Inr(5) by blast
  then show "map name segments =
      map (\<lambda>i. replace_ext (file_name audio) @ ''-segment-'' @
                padStart 3 (CHR ''0'') (String_of_nat (i + 1)) @ ''.'' @
                (if last (split_dot [] (file_name audio)) = [] then ''mp3''
                 else last (split_dot [] (file_name audio))))
        [0..<nat \<lceil>fl (d / s)\<rceil>]"
    by (simp add: segment_number_def split_extension_def split_pop_def or_else_def)
next
  assume "i < 999"
  from segment_number_digits [OF this]
  show "padStart 3 (CHR ''0'') (String_of_nat (i + 1)) =
      [digit_char ((i + 1) div 100), digit_char ((i + 1) div 10), digit_char (i + 1)]"
    by (simp add: segment_number_def)
next
  assume "ext \<noteq> [] \<and> list_all ext_char ext"
  then show "replace_ext (stem @ CHR ''.'' # ext) = stem"
    by (simp add: replace_ext_strips)
next
  assume "extractAudioFromVideo env source aoptions vst = (Inr track, vst')"
  then have "name track =
      replace_ext (file_name source) @ ''.'' @ format_name (audio_format aoptions)"
    by (rule extractAudioFromVideo_Inr(2))
  then show "name track = replace_ext (file_name source) @ ''.'' @
      (if audio_format aoptions = Mp3 then ''mp3'' else ''wav'')"
    by (cases "audio_format aoptions") (simp_all add: format_name_def)
next
  assume "file_media movie = Media md mw mh \<and>
    convertVideoToGif fl browser movie goptions gst = (Inr gif, gst')"
  then show "name gif = replace_ext (file_name movie) @ ''.gif''"
    using convertVideoToGif_Inr(3) by blast
qed

lemma clip_last_frame:
  "extractFrameFromVideo working_browser clip last_png (start_state Map.empty) =
    (Inr \<lparr>name = ''clip_last-frame.png'', blob = [9], mime = ''image/png'',
          originalSize = 4, processedSize = 1\<rparr>,
     \<lparr>events = [], fs = Map.empty, commands = [], seeks = [2.4]\<rparr>)"
  by (simp add: extractFrameFromVideo_def frame_seekTime_def image_extension_def
      set_currentTime_def start_state_def working_browser_def clip_def last_png_def
      ext_char_def Let_def)

lemma clip_audio_track:
  "fst (extractAudioFromVideo working_engine clip mp3_medium (start_state Map.empty)) =
    Inr \<lparr>name = ''clip.mp3'', blob = [7], mime = ''audio/mpeg'',
          originalSize = 4, processedSize = 1\<rparr>"
  by (simp add: extractAudioFromVideo_def extraction_args_def format_name_def state_defs js_eval
      working_engine_def clip_def mp3_medium_def Let_def extraction_listener_def
      extraction_progress_def)

lemma names_of_clip_and_song:
  "name (projr (fst (extractFrameFromVideo working_browser clip last_png
      (start_state Map.empty)))) = ''clip_last-frame.png'' \<and>
   map name (projr (fst (splitAudio exact working_engine song 8 (start_state Map.empty)))) =
     [''song-segment-001.mp3'', ''song-segment-002.mp3''] \<and>
   name (projr (fst (extractAudioFromVideo working_engine clip mp3_medium
      (start_state Map.empty)))) = ''clip.mp3'' \<and>
   name (projr (fst (convertVideoToGif exact working_browser clip one_fps
      (start_state Map.empty)))) = ''clip.gif''"
  by (simp add: song_split_result clip_last_frame clip_audio_track clip_gif_result)


subsection \<open>Seek times\<close>

lemma for_each_invariant:
  assumes "for_each body is acc st = (res, st')" and "P st"
    and "\<And>i s r s'. i \<in> set is \<Longrightarrow> P s \<Longrightarrow> body i s = (r, s') \<Longrightarrow> P s'"
  shows "P st'"
  using assms
proof (induction "is" arbitrary: acc st)
  case Nil
  then show ?case by simp
next
  case (Cons i "is")
  obtain r s1 where b: "body i st = (r, s1)" by (cases "body i st")
  with Cons.prems(2,3) have p1: "P s1" by auto
  show ?case
  proof (cases r)
    case (Inl e)
    with Cons.prems(1) b have "st' = s1" by simp
    with p1 show ?thesis by simp
  next
    case (Inr x)
    with Cons.prems(1) b have rest: "for_each body is (acc @ [x]) s1 = (res, st')" by simp
    show ?thesis
    proof (rule Cons.IH [OF rest p1])
      fix j s r' s'
      assume "j \<in> set is" and "P s" and "body j s = (r', s')"
      then show "P s'" using Cons.prems(3) [of j s r' s'] by simp
    qed
  qed
qed










subsection \<open>The frame extraction batch\<close>

lemma extractFrameFromVideo_result:
  "fst (extractFrameFromVideo env file options st) = frame_outcome env file options"
  by (simp add: frame_outcome_def extractFrameFromVideo_def Let_def
      split: media.splits option.splits)

lemma extractFrames_loop_result:
  "fst (extractFrames_loop env options n i files extracted calls st) =
   extracted @ map (\<lambda>f. projr (frame_outcome env f options))
     (filter (\<lambda>f. \<not> isl (frame_outcome env f options)) files)"
proof (induction files arbitrary: i extracted calls st)
  case Nil
  then show ?case by simp
next
  case (Cons f files)
  obtain r st1 where step: "extractFrameFromVideo env f options st = (r, st1)"
    by (cases "extractFrameFromVideo env f options st")
  then have r: "frame_outcome env f options = r"
    using extractFrameFromVideo_result [of env f options st] by simp
  show ?case
  proof (cases r)
    case (Inl e)
    with step r show ?thesis by (simp add: Cons.IH)
  next
    case (Inr p)
    with step r show ?thesis by (simp add: Cons.IH)
  qed
qed

lemma extractFrames_loop_calls:
  "fst (snd (extractFrames_loop env options n i files extracted calls st)) =
   calls @ map (\<lambda>k. (k + 1, n)) [i..<i + length files]"
proof (induction files arbitrary: i extracted calls st)
  case Nil
  then show ?case by simp
next
  case (Cons f files)
  have upt: "[i..<i + length (f # files)] = i # [i + 1..<i + 1 + length files]"
    by (simp add: upt_conv_Cons del: upt_Suc)
  obtain r st1 where step: "extractFrameFromVideo env f options st = (r, st1)"
    by (cases "extractFrameFromVideo env f options st")
  show ?case
  proof (cases r)
    case (Inl e)
    with step have "extractFrames_loop env options n i (f # files) extracted calls st =
        extractFrames_loop env options n (i + 1) files extracted (calls @ [(i + 1, n)]) st1"
      by simp
    then show ?thesis unfolding upt by (simp only: Cons.IH) simp
  next
    case (Inr p)
    with step have "extractFrames_loop env options n i (f # files) extracted calls st =
        extractFrames_loop env options n (i + 1) files (extracted @ [p])
          (calls @ [(i + 1, n)]) st1"
      by simp
    then show ?thesis unfolding upt by (simp only: Cons.IH) simp
  qed
qed

text \<open>
  C3. For every list of input files the batch returns a list (the loop catches the failure
  of a file and goes on, so the call itself throws nothing): the artifacts of the files whose
  extraction succeeds, one each, in the order of the input, and nothing for a file whose
  extraction fails; every file is visited, as the progress calls \<open>(1, n), \<dots>, (n, n)\<close> show.
  In particular three inputs of which the second fails give exactly the artifacts of the
  first and the third.
\<close>

theorem extractFrames_skips_failures:
  "fst (extractFrames browser files options st) =
     map (\<lambda>f. projr (frame_outcome browser f options))
       (filter (\<lambda>f. \<not> isl (frame_outcome browser f options)) files) \<and>
   length (fst (extractFrames browser files options st)) =
     length (filter (\<lambda>f. \<not> isl (frame_outcome browser f options)) files) \<and>
   fst (snd (extractFrames browser files options st)) =
     map (\<lambda>k. (k + 1, length files)) [0..<length files] \<and>
   (fst (extractFrameFromVideo browser f1 options s1) = Inr r1 \<and>
    fst (extractFrameFromVideo browser f2 options s2) = Inl e2 \<and>
    fst (extractFrameFromVideo browser f3 options s3) = Inr r3 \<longrightarrow>
      fst (extractFrames browser [f1, f2, f3] options st) = [r1, r3])"
proof (intro conjI impI)
  show res: "fst (extractFrames browser files options st) =
     map (\<lambda>f. projr (frame_outcome browser f options))
       (filter (\<lambda>f. \<not> isl (frame_outcome browser f options)) files)"
    by (simp add: extractFrames_def extractFrames_loop_result)
  then show "length (fst (extractFrames browser files options st)) =
     length (filter (\<lambda>f. \<not> isl (frame_outcome browser f options)) files)"
    by simp
  show "fst (snd (extractFrames browser files options st)) =
     map (\<lambda>k. (k + 1, length files)) [0..<length files]"
    using extractFrames_loop_calls [of browser options "length files" 0 files "[]" "[]" st]
    by (simp add: extractFrames_def)
  assume "fst (extractFrameFromVideo browser f1 options s1) = Inr r1 \<and>
    fst (extractFrameFromVideo browser f2 options s2) = Inl e2 \<and>
    fst (extractFrameFromVideo browser f3 options s3) = Inr r3"
  then have "frame_outcome browser f1 options = Inr r1"
    "frame_outcome browser f2 options = Inl e2" "frame_outcome browser f3 options = Inr r3"
    by (simp_all add: extractFrameFromVideo_result)
  moreover have "fst (extractFrames browser [f1, f2, f3] options st) =
     map (\<lambda>f. projr (frame_outcome browser f options))
       (filter (\<lambda>f. \<not> isl (frame_outcome browser f options)) [f1, f2, f3])"
    by (simp only: extractFrames_def extractFrames_loop_result append_Nil)
  ultimately show "fst (extractFrames browser [f1, f2, f3] options st) = [r1, r3]"
    by simp
qed

lemma teaser_last_frame:
  "fst (extractFrameFromVideo working_browser teaser last_png (start_state Map.empty)) =
    Inr \<lparr>name = ''teaser_last-frame.png'', blob = [9], mime = ''image/png'',
          originalSize = 2, processedSize = 1\<rparr>"
  by (simp add: extractFrameFromVideo_def frame_seekTime_def image_extension_def
      set_currentTime_def start_state_def working_browser_def teaser_def last_png_def
      ext_char_def Let_def)

lemma broken_last_frame:
  "fst (extractFrameFromVideo working_browser broken last_png (start_state Map.empty)) =
    Inl ''Failed to load video: broken.mp4. Format may not be supported by your browser.''"
  by (simp add: extractFrameFromVideo_def load_error_def working_browser_def broken_def)

theorem extractFrames_skips_failures_witness:
  "fst (extractFrames working_browser [clip, broken, teaser] last_png (start_state Map.empty)) =
     [\<lparr>name = ''clip_last-frame.png'', blob = [9], mime = ''image/png'',
        originalSize = 4, processedSize = 1\<rparr>,
      \<lparr>name = ''teaser_last-frame.png'', blob = [9], mime = ''image/png'',
        originalSize = 2, processedSize = 1\<rparr>] \<and>
   fst (snd (extractFrames working_browser [clip, broken, teaser] last_png
     (start_state Map.empty))) = [(1, 3), (2, 3), (3, 3)]"
proof -
  note batch = extractFrames_skips_failures [where browser = working_browser
      and files = "[clip, broken, teaser]" and options = last_png
      and st = "start_state Map.empty" and ?f1.0 = clip and ?f2.0 = broken and ?f3.0 = teaser
      and ?s1.0 = "start_state Map.empty" and ?s2.0 = "start_state Map.empty"
      and ?s3.0 = "start_state Map.empty"
      and ?r1.0 = "\<lparr>name = ''clip_last-frame.png'', blob = [9], mime = ''image/png'',
        originalSize = 4, processedSize = 1\<rparr>"
      and ?e2.0 = "''Failed to load video: broken.mp4. Format may not be supported by your browser.''"
      and ?r3.0 = "\<lparr>name = ''teaser_last-frame.png'', blob = [9], mime = ''image/png'',
        originalSize = 2, processedSize = 1\<rparr>"]
  have outcomes:
    "fst (extractFrameFromVideo working_browser clip last_png (start_state Map.empty)) =
       Inr \<lparr>name = ''clip_last-frame.png'', blob = [9], mime = ''image/png'',
             originalSize = 4, processedSize = 1\<rparr> \<and>
     fst (extractFrameFromVideo working_browser broken last_png (start_state Map.empty)) =
       Inl ''Failed to load video: broken.mp4. Format may not be supported by your browser.'' \<and>
     fst (extractFrameFromVideo working_browser teaser last_png (start_state Map.empty)) =
       Inr \<lparr>name = ''teaser_last-frame.png'', blob = [9], mime = ''image/png'',
             originalSize = 2, processedSize = 1\<rparr>"
    by (simp add: clip_last_frame teaser_last_frame broken_last_frame)
  with batch have "fst (extractFrames working_browser [clip, broken, teaser] last_png
      (start_state Map.empty)) =
     [\<lparr>name = ''clip_last-frame.png'', blob = [9], mime = ''image/png'',
        originalSize = 4, processedSize = 1\<rparr>,
      \<lparr>name = ''teaser_last-frame.png'', blob = [9], mime = ''image/png'',
        originalSize = 2, processedSize = 1\<rparr>]"
    by blast
  moreover from batch have "fst (snd (extractFrames working_browser [clip, broken, teaser]
      last_png (start_state Map.empty))) =
      map (\<lambda>k. (k + 1, length [clip, broken, teaser])) [0..<length [clip, broken, teaser]]"
    by blast
  ultimately show ?thesis by (simp add: upt_conv_Cons)
qed

subsection \<open>Progress of a run\<close>

lemma double_rounding_exact: "double_rounding exact"
  by (simp add: double_rounding_def exact_def)

lemma double_rounding_mono: "double_rounding fl \<Longrightarrow> x \<le> y \<Longrightarrow> fl x \<le> fl y"
  by (simp add: double_rounding_def)

lemma double_rounding_small:
  assumes "double_rounding fl"
  shows "fl 0 = 0" and "fl 1 = 1" and "fl 70 = 70"
proof -
  have k: "fl (of_int k) = of_int k" if "\<bar>k\<bar> \<le> 2 ^ 53" for k :: int
    using assms that by (simp add: double_rounding_def)
  show "fl 0 = 0" using k [of 0] by simp
  show "fl 1 = 1" using k [of 1] by simp
  show "fl 70 = 70" using k [of 70] by simp
qed

lemma split_percent_mono:
  assumes dr: "double_rounding fl" and "i \<le> j"
  shows "Math_floor (fl (fl (real i / real n) * 70)) \<le> Math_floor (fl (fl (real j / real n) * 70))"
proof -
  have "real i \<le> real j" using assms by simp
  then have "real i / real n \<le> real j / real n"
    by (rule divide_right_mono) simp
  then have "fl (real i / real n) \<le> fl (real j / real n)"
    by (rule double_rounding_mono [OF dr])
  then have "fl (real i / real n) * 70 \<le> fl (real j / real n) * 70" by simp
  then have "fl (fl (real i / real n) * 70) \<le> fl (fl (real j / real n) * 70)"
    by (rule double_rounding_mono [OF dr])
  then have "\<lfloor>fl (fl (real i / real n) * 70)\<rfloor> \<le> \<lfloor>fl (fl (real j / real n) * 70)\<rfloor>"
    by (rule floor_mono)
  then show ?thesis by (simp add: Math_floor_def)
qed

lemma split_percent_bounds:
  assumes dr: "double_rounding fl" and "i < n"
  shows "0 \<le> Math_floor (fl (fl (real i / real n) * 70))"
    and "Math_floor (fl (fl (real i / real n) * 70)) \<le> 70"
proof -
  note small = double_rounding_small [OF dr]
  have q0: "0 \<le> real i / real n" by simp
  have q1: "real i / real n \<le> 1" using assms by (simp add: pos_divide_le_eq)
  from double_rounding_mono [OF dr q0] have f0: "0 \<le> fl (real i / real n)"
    by (simp add: small)
  from double_rounding_mono [OF dr q1] have f1: "fl (real i / real n) \<le> 1"
    by (simp add: small)
  from f0 have "0 \<le> fl (real i / real n) * 70" by simp
  from double_rounding_mono [OF dr this] have "0 \<le> fl (fl (real i / real n) * 70)"
    by (simp add: small)
  then have "0 \<le> \<lfloor>fl (fl (real i / real n) * 70)\<rfloor>" by simp
  then show "0 \<le> Math_floor (fl (fl (real i / real n) * 70))" by (simp add: Math_floor_def)
  from f1 have "fl (real i / real n) * 70 \<le> 70" by simp
  from double_rounding_mono [OF dr this] have "fl (fl (real i / real n) * 70) \<le> 70"
    by (simp add: small)
  then have "\<lfloor>fl (fl (real i / real n) * 70)\<rfloor> \<le> 70" by linarith
  then show "Math_floor (fl (fl (real i / real n) * 70)) \<le> 70" by (simp add: Math_floor_def)
qed

lemma sorted_split_events:
  assumes dr: "double_rounding fl"
  shows "sorted (map (\<lambda>i. progress (split_event fl n i)) [0..<n])"
proof -
  have "sorted_wrt (\<lambda>i j. progress (split_event fl n i) \<le> progress (split_event fl n j)) [0..<n]"
  proof (rule sorted_wrt_mono_rel [of _ "(\<le>)"])
    show "sorted_wrt (\<le>) [0..<n]" by simp
  next
    fix i j :: nat
    assume "i \<le> j"
    then show "progress (split_event fl n i) \<le> progress (split_event fl n j)"
      using split_percent_mono [OF dr, of i j n] by (simp add: split_event_def ev_of_def)
  qed
  then show ?thesis by (simp add: sorted_map)
qed

lemma splitAudio_progress:
  assumes run: "splitAudio fl env file segmentLength (start_state files) = (Inr processedFiles, st')"
    and media: "file_media file = Media duration w h"
  shows "double_rounding fl \<Longrightarrow> sorted (map progress (events st'))"
    and "stage (last (events st')) = Complete" and "progress (last (events st')) = 100"
proof -
  let ?n = "nat \<lceil>fl (duration / segmentLength)\<rceil>"
  have evs: "events st' = [ev Loading 0, ev Loading 10, ev_of Splitting 20 0 ?n] @
      map (split_event fl ?n) [0..<?n] @ [ev_of Complete 100 ?n ?n]"
    using splitAudio_Inr(3) [OF run media] by (simp add: start_state_def)
  show "stage (last (events st')) = Complete" "progress (last (events st')) = 100"
    unfolding evs by (simp_all add: ev_of_def)
  assume dr: "double_rounding fl"
  have bounds: "0 \<le> progress (split_event fl ?n i) \<and> 10 \<le> progress (split_event fl ?n i) \<and>
      20 \<le> progress (split_event fl ?n i) \<and> progress (split_event fl ?n i) \<le> 100"
    if "i < ?n" for i
    using split_percent_bounds [OF dr that] by (simp add: split_event_def ev_of_def)
  have "sorted (map progress (map (split_event fl ?n) [0..<?n]))"
    using sorted_split_events [OF dr, of ?n] by (simp add: comp_def)
  with bounds show "sorted (map progress (events st'))"
    unfolding evs by (auto simp: sorted_append ev_def ev_of_def)
qed

lemma extractAudioFromVideo_progress:
  assumes run: "extractAudioFromVideo env file options (start_state files) = (Inr processed, st')"
    and unit: "\<forall>p \<in> set (exec_progress env
        (extraction_args (extract_input file) (extract_output options) options)).
          0 \<le> p \<and> p \<le> 1"
  shows "sorted (map progress (events st'))"
    and "stage (last (events st')) = Complete" and "progress (last (events st')) = 100"
proof -
  let ?ps = "exec_progress env
    (extraction_args (extract_input file) (extract_output options) options)"
  have evs: "events st' = [ev Loading 0, ev Loading 20, ev Extracting 40] @
      map (\<lambda>p. ev Extracting (extraction_progress p)) ?ps @ [ev Encoding 90, ev Complete 100]"
    using extractAudioFromVideo_Inr(1) [OF run] by (simp add: start_state_def)
  have "map (\<lambda>p. ev Extracting (extraction_progress p)) ?ps =
      map (\<lambda>p. ev Extracting 40) ?ps"
    using unit by (simp add: extraction_progress_unit)
  then have evs': "events st' = [ev Loading 0, ev Loading 20, ev Extracting 40] @
      replicate (length ?ps) (ev Extracting 40) @ [ev Encoding 90, ev Complete 100]"
    unfolding evs by (simp add: map_replicate_const)
  show "sorted (map progress (events st'))"
    unfolding evs' by (auto simp: sorted_append ev_def)
  show "stage (last (events st')) = Complete" "progress (last (events st')) = 100"
    unfolding evs by (simp_all add: ev_def)
qed

lemma convertVideoToGif_progress:
  assumes run: "convertVideoToGif fl env file options (start_state files) = (Inr gif, st')"
    and media: "file_media file = Media video_duration w h"
  shows "take 3 (map progress (events st')) = [0, 100, 0]"
    and "\<not> sorted (map progress (events st'))"
    and "stage (last (events st')) = Complete" and "progress (last (events st')) = 100"
proof -
  let ?n = "gif_totalFrames fl options video_duration"
  have evs: "events st' = [ev Loading 0, ev Loading 100, ev_of Extracting 0 0 ?n] @
      map (gif_event fl ?n) [0..<?n] @ [ev Encoding 0] @
      map (\<lambda>p. ev Encoding (Math_round (fl (p * 100)))) (gif_progress env) @ [ev Complete 100]"
    using convertVideoToGif_Inr(1) [OF run media] by (simp add: start_state_def)
  show "take 3 (map progress (events st')) = [0, 100, 0]"
    unfolding evs by (simp add: ev_def ev_of_def)
  show "\<not> sorted (map progress (events st'))"
    unfolding evs by (simp add: ev_def ev_of_def)
  show "stage (last (events st')) = Complete" "progress (last (events st')) = 100"
    unfolding evs by (simp_all add: ev_def)
qed

text \<open>Runs that fail: the event of stage complete is the last thing a run does.\<close>

lemma splitSegment_events:
  assumes "splitSegment fl env file segmentLength n i st = (r, st')"
  shows "events st' = events st @ [split_event fl n i]"
  using assms
  by (auto simp: splitSegment_def onProgress_def writeFile_def readFile_def deleteFile_def
      exec_def split_event_def Let_def fold_ignore
      split: exec_outcome.splits option.splits if_splits)

lemma splitAudio_Inl:
  assumes run: "splitAudio fl env file segmentLength st = (Inl m, st')"
    and start: "Complete \<notin> set (map stage (events st))"
  shows "Complete \<notin> set (map stage (events st'))"
proof -
  let ?P = "\<lambda>s. Complete \<notin> set (map stage (events s))"
  have body: "?P s'"
    if "?P s" and "splitSegment fl env file segmentLength n i s = (r, s')" for n i s r s'
    using that(1) splitSegment_events [OF that(2)] by (simp add: split_event_def ev_of_def)
  have loop: "?P s'"
    if "for_each (splitSegment fl env file segmentLength n) [0..<n] [] s = (r, s')" and "?P s"
    for n s r s'
    by (rule for_each_invariant [OF that(1), where P = ?P]) (use that(2) body in blast)+
  have del: "events s' = events s" if "deleteFile path s = (r, s')" for path s r s'
    using that by (auto simp: deleteFile_def split: option.splits)
  let ?st1 = "\<lambda>n. onProgress (ev_of Splitting 20 0 n)
    (writeFile (''input.'' @ or_else (split_pop (file_name file)) ''mp3'') (file_bytes file)
      (onProgress (ev Loading 10) (onProgress (ev Loading 0) st)))"
  have one: "?P (onProgress (ev Loading 0) st)"
    and st1: "?P (?st1 n)" for n
    using start by (simp_all add: onProgress_def writeFile_def ev_def ev_of_def)
  from run consider "st' = onProgress (ev Loading 0) st"
    | n r s2 where "for_each (splitSegment fl env file segmentLength n) [0..<n] [] (?st1 n) = (r, s2)"
        and "events st' = events s2"
    by (auto simp: splitAudio_def Let_def del
        split: sum.splits option.splits prod.splits)
  then show ?thesis
  proof cases
    case 1
    with one show ?thesis by simp
  next
    case 2
    from loop [OF 2(1) st1] 2(2) show ?thesis by simp
  qed
qed

lemma fold_extraction_events:
  "events (fold extraction_listener ps st) =
   events st @ map (\<lambda>p. ev Extracting (extraction_progress p)) ps"
  by (induction ps arbitrary: st) (simp_all add: extraction_listener_def onProgress_def)

lemma fold_extraction_stages:
  "Complete \<notin> set (map stage (events (fold extraction_listener ps st))) \<longleftrightarrow>
   Complete \<notin> set (map stage (events st))"
  by (auto simp: fold_extraction_events ev_def)

lemma extractAudioFromVideo_Inl:
  assumes run: "extractAudioFromVideo env file options st = (Inl m, st')"
    and start: "Complete \<notin> set (map stage (events st))"
  shows "Complete \<notin> set (map stage (events st'))"
  using assms
  by (auto simp: extractAudioFromVideo_def Let_def exec_def onProgress_def writeFile_def
      readFile_def deleteFile_def ev_def fold_extraction_events
      split: option.splits exec_outcome.splits prod.splits sum.splits if_splits)

lemma gifFrame_events:
  assumes "gifFrame fl env options video_duration n i st = (r, st')"
  shows "Complete \<notin> set (map stage (events st')) \<longleftrightarrow>
         Complete \<notin> set (map stage (events st))"
  using assms
  by (auto simp: gifFrame_def seekToTime_def set_currentTime_def onProgress_def ev_of_def Let_def
      split: if_splits)

lemma convertVideoToGif_Inl:
  assumes run: "convertVideoToGif fl env file options st = (Inl m, st')"
    and start: "Complete \<notin> set (map stage (events st))"
  shows "Complete \<notin> set (map stage (events st'))"
proof -
  let ?P = "\<lambda>s. Complete \<notin> set (map stage (events s))"
  have loop: "?P s'"
    if "for_each (gifFrame fl env options video_duration n) [0..<n] [] s = (r, s')" and "?P s"
    for video_duration n s r s'
    by (rule for_each_invariant [OF that(1), where P = ?P])
      (use that(2) gifFrame_events in blast)+
  let ?st1 = "\<lambda>n. onProgress (ev_of Extracting 0 0 n)
    (onProgress (ev Loading 100) (onProgress (ev Loading 0) st))"
  have one: "?P (onProgress (ev Loading 0) st)"
    and st1: "?P (?st1 n)" for n
    using start by (simp_all add: onProgress_def ev_def ev_of_def)
  from run consider "st' = st" | "st' = onProgress (ev Loading 0) st"
    | video_duration n r where
        "for_each (gifFrame fl env options video_duration n) [0..<n] [] (?st1 n) = (r, st')"
    by (auto simp: convertVideoToGif_def Let_def
        split: if_splits media.splits sum.splits prod.splits)
  then show ?thesis
  proof cases
    case 1
    with start show ?thesis by simp
  next
    case 2
    with one show ?thesis by simp
  next
    case 3
    from loop [OF 3 st1] show ?thesis .
  qed
qed

lemma song_split_failure:
  "splitAudio exact failing_engine song 4 (start_state Map.empty) =
    (Inl ''FFmpeg failed for segment 1: boom'',
     \<lparr>events = [ev Loading 0, ev Loading 10, ev_of Splitting 20 0 3, ev_of Splitting 20 1 3],
      fs = [''input.mp3'' \<mapsto> [1, 2, 3]],
      commands = [[Str ''-i'', Str ''input.mp3'', Str ''-ss'', Num 0, Str ''-t'', Num 4,
        Str ''-acodec'', Str ''copy'', Str ''-y'', Str ''output-segment-001.mp3'']],
      seeks = []\<rparr>)"
  by (simp add: split_defs state_defs js_eval song_def failing_engine_def Let_def upt_conv_Cons)

lemma clip_extraction_failure:
  "extractAudioFromVideo failing_engine clip mp3_medium (start_state Map.empty) =
    (Inl ''FFmpeg failed: boom'',
     \<lparr>events = [ev Loading 0, ev Loading 20, ev Extracting 40],
      fs = [''input.mov'' \<mapsto> [1, 2, 3, 4]],
      commands = [[Str ''-i'', Str ''input.mov'', Str ''-vn'', Str ''-acodec'',
        Str ''libmp3lame'', Str ''-b:a'', Str ''192k'', Str ''-y'', Str ''output.mp3'']],
      seeks = []\<rparr>)"
  by (simp add: extractAudioFromVideo_def extraction_args_def format_name_def state_defs js_eval
      failing_engine_def clip_def mp3_medium_def Let_def)

lemma broken_gif_failure:
  "convertVideoToGif exact working_browser broken one_fps (start_state Map.empty) =
    (Inl ''Failed to load video: broken.mp4. Format may not be supported by your browser.'',
     \<lparr>events = [ev Loading 0], fs = Map.empty, commands = [], seeks = []\<rparr>)"
  by (simp add: convertVideoToGif_def load_error_def state_defs working_browser_def broken_def)

text \<open>
  C7, as amended. A run of the audio split that succeeds ends with the event of stage
  complete and percent 100, and its percent values are non-decreasing when the rounding of
  double arithmetic is monotone and leaves integers as they are, which it is. A run of the
  audio extraction that succeeds while the engine reports progress values in \<open>[0, 1]\<close> has
  non-decreasing percent values and ends with stage complete and percent 100. A GIF
  conversion that succeeds also ends with stage complete and percent 100, but its percent
  values are per stage: they begin 0, 100, 0 (loading, loaded, extraction started) and so
  are never non-decreasing over the run. A run of any of the three that fails emits no event
  of stage complete.
\<close>

theorem progress_of_runs:
  "(file_media audio = Media d w h \<and>
    splitAudio fl env audio s (start_state files) = (Inr segments, st') \<longrightarrow>
      stage (last (events st')) = Complete \<and> progress (last (events st')) = 100 \<and>
      (double_rounding fl \<longrightarrow> sorted (map progress (events st')))) \<and>
   (extractAudioFromVideo env source options (start_state files) = (Inr track, xst') \<and>
    (\<forall>p \<in> set (exec_progress env
        (extraction_args (extract_input source) (extract_output options) options)).
          0 \<le> p \<and> p \<le> 1) \<longrightarrow>
      sorted (map progress (events xst')) \<and>
      stage (last (events xst')) = Complete \<and> progress (last (events xst')) = 100) \<and>
   (file_media movie = Media md mw mh \<and>
    convertVideoToGif fl browser movie goptions (start_state files) = (Inr gif, gst') \<longrightarrow>
      take 3 (map progress (events gst')) = [0, 100, 0] \<and>
      \<not> sorted (map progress (events gst')) \<and>
      stage (last (events gst')) = Complete \<and> progress (last (events gst')) = 100) \<and>
   (splitAudio fl env audio s (start_state files) = (Inl m, fst') \<longrightarrow>
      Complete \<notin> set (map stage (events fst'))) \<and>
   (extractAudioFromVideo env source options (start_state files) = (Inl xm, fxst') \<longrightarrow>
      Complete \<notin> set (map stage (events fxst'))) \<and>
   (convertVideoToGif fl browser movie goptions (start_state files) = (Inl gm, fgst') \<longrightarrow>
      Complete \<notin> set (map stage (events fgst')))"
proof (intro conjI impI)
  assume "file_media audio = Media d w h \<and>
    splitAudio fl env audio s (start_state files) = (Inr segments, st')"
  then have run: "splitAudio fl env audio s (start_state files) = (Inr segments, st')"
    and media: "file_media audio = Media d w h" by simp_all
  show "stage (last (events st')) = Complete" "progress (last (events st')) = 100"
    by (rule splitAudio_progress [OF run media])+
  assume "double_rounding fl"
  then show "sorted (map progress (events st'))"
    by (rule splitAudio_progress(1) [OF run media])
next
  assume "extractAudioFromVideo env source options (start_state files) = (Inr track, xst') \<and>
    (\<forall>p \<in> set (exec_progress env
        (extraction_args (extract_input source) (extract_output options) options)).
          0 \<le> p \<and> p \<le> 1)"
  then have run: "extractAudioFromVideo env source options (start_state files) = (Inr track, xst')"
    and unit: "\<forall>p \<in> set (exec_progress env
        (extraction_args (extract_input source) (extract_output options) options)).
          0 \<le> p \<and> p \<le> 1" by simp_all
  show "sorted (map progress (events xst'))" "stage (last (events xst')) = Complete"
    "progress (last (events xst')) = 100"
    by (rule extractAudioFromVideo_progress [OF run unit])+
next
  assume "file_media movie = Media md mw mh \<and>
    convertVideoToGif fl browser movie goptions (start_state files) = (Inr gif, gst')"
  then have run: "convertVideoToGif fl browser movie goptions (start_state files) = (Inr gif, gst')"
    and media: "file_media movie = Media md mw mh" by simp_all
  show "take 3 (map progress (events gst')) = [0, 100, 0]"
    "\<not> sorted (map progress (events gst'))" "stage (last (events gst')) = Complete"
    "progress (last (events gst')) = 100"
    by (rule convertVideoToGif_progress [OF run media])+
next
  assume "splitAudio fl env audio s (start_state files) = (Inl m, fst')"
  then show "Complete \<notin> set (map stage (events fst'))"
    by (rule splitAudio_Inl) (simp add: start_state_def)
next
  assume "extractAudioFromVideo env source options (start_state files) = (Inl xm, fxst')"
  then show "Complete \<notin> set (map stage (events fxst'))"
    by (rule extractAudioFromVideo_Inl) (simp add: start_state_def)
next
  assume "convertVideoToGif fl browser movie goptions (start_state files) = (Inl gm, fgst')"
  then show "Complete \<notin> set (map stage (events fgst'))"
    by (rule convertVideoToGif_Inl) (simp add: start_state_def)
qed

theorem progress_of_runs_witness:
  "sorted (map progress (events (snd (splitAudio exact working_engine song 8
     (start_state Map.empty))))) \<and>
   progress (last (events (snd (splitAudio exact working_engine song 8
     (start_state Map.empty))))) = 100 \<and>
   sorted (map progress (events (snd (extractAudioFromVideo working_engine clip mp3_medium
     (start_state Map.empty))))) \<and>
   stage (last (events (snd (extractAudioFromVideo working_engine clip mp3_medium
     (start_state Map.empty))))) = Complete \<and>
   take 3 (map progress (events (snd (convertVideoToGif exact working_browser clip one_fps
     (start_state Map.empty))))) = [0, 100, 0] \<and>
   Complete \<notin> set (map stage (events (snd (splitAudio exact failing_engine song 4
     (start_state Map.empty))))) \<and>
   Complete \<notin> set (map stage (events (snd (extractAudioFromVideo failing_engine clip mp3_medium
     (start_state Map.empty))))) \<and>
   Complete \<notin> set (map stage (events (snd (convertVideoToGif exact working_browser broken one_fps
     (start_state Map.empty)))))"
proof -
  let ?r = "splitAudio exact working_engine song 8 (start_state Map.empty)"
  let ?a = "extractAudioFromVideo working_engine clip mp3_medium (start_state Map.empty)"
  let ?g = "convertVideoToGif exact working_browser clip one_fps (start_state Map.empty)"
  let ?fr = "splitAudio exact failing_engine song 4 (start_state Map.empty)"
  let ?fa = "extractAudioFromVideo failing_engine clip mp3_medium (start_state Map.empty)"
  let ?fg = "convertVideoToGif exact working_browser broken one_fps (start_state Map.empty)"
  note pr = progress_of_runs [where fl = exact and audio = song and d = 10 and w = 0 and h = 0
      and env = working_engine and s = 8 and files = "Map.empty"
      and segments = "projr (fst ?r)" and st' = "snd ?r"
      and source = clip and options = mp3_medium and track = "projr (fst ?a)"
      and xst' = "snd ?a" and movie = clip and md = "2.5" and mw = 101 and mh = 75
      and browser = working_browser and goptions = one_fps
      and gif = "projr (fst ?g)" and gst' = "snd ?g"]
  note pf = progress_of_runs [where fl = exact and audio = song and env = failing_engine
      and s = 4 and files = "Map.empty" and m = "projl (fst ?fr)" and fst' = "snd ?fr"
      and source = clip and options = mp3_medium and xm = "projl (fst ?fa)"
      and fxst' = "snd ?fa" and movie = broken and browser = working_browser
      and goptions = one_fps and gm = "projl (fst ?fg)" and fgst' = "snd ?fg"]
  have run: "file_media song = Media 10 0 0 \<and> ?r = (Inr (projr (fst ?r)), snd ?r)"
    by (simp add: prod_eq_iff song_split_result) (simp add: song_def)
  have track: "?a = (Inr (projr (fst ?a)), snd ?a) \<and>
      (\<forall>p \<in> set (exec_progress working_engine
         (extraction_args (extract_input clip) (extract_output mp3_medium) mp3_medium)).
           0 \<le> p \<and> p \<le> 1)"
    by (simp add: prod_eq_iff clip_audio_track) (simp add: working_engine_def)
  have gif: "file_media clip = Media 2.5 101 75 \<and> ?g = (Inr (projr (fst ?g)), snd ?g)"
    by (simp add: prod_eq_iff clip_gif_result) (simp add: clip_def)
  have fails: "?fr = (Inl (projl (fst ?fr)), snd ?fr)" "?fa = (Inl (projl (fst ?fa)), snd ?fa)"
    "?fg = (Inl (projl (fst ?fg)), snd ?fg)"
    by (simp_all add: song_split_failure clip_extraction_failure broken_gif_failure)
  from pr run double_rounding_exact have "sorted (map progress (events (snd ?r)))"
    and "progress (last (events (snd ?r))) = 100" by blast+
  moreover from pr track have "sorted (map progress (events (snd ?a)))"
    and "stage (last (events (snd ?a))) = Complete" by blast+
  moreover from pr gif have "take 3 (map progress (events (snd ?g))) = [0, 100, 0]" by blast
  moreover from pf fails have "Complete \<notin> set (map stage (events (snd ?fr)))"
    and "Complete \<notin> set (map stage (events (snd ?fa)))"
    and "Complete \<notin> set (map stage (events (snd ?fg)))" by blast+
  ultimately show ?thesis by blast
qed

text \<open>
  C7 as stated fails. The GIF conversion of a clip of 2.5 seconds at one frame a second
  succeeds and emits the percent values 0, 100, 0, 50, 100, 0, 50, 100, 100, which go down
  twice. An audio split whose first engine command throws ends with the event of stage
  splitting and percent 20, not with complete and 100.
\<close>

theorem progress_of_runs_counterexample:
  "map progress (events (snd (convertVideoToGif exact working_browser clip one_fps
     (start_state Map.empty)))) = [0, 100, 0, 50, 100, 0, 50, 100, 100] \<and>
   \<not> sorted (map progress (events (snd (convertVideoToGif exact working_browser clip one_fps
     (start_state Map.empty))))) \<and>
   stage (last (events (snd (splitAudio exact failing_engine song 4 (start_state Map.empty))))) =
     Splitting \<and>
   progress (last (events (snd (splitAudio exact failing_engine song 4 (start_state Map.empty))))) =
     20"
  by (simp add: clip_gif_events song_split_failure ev_of_def)

subsection \<open>Staged files\<close>

lemma fold_unstage:
  "fold (\<lambda>i m. m(g i := None)) js m x = (if x \<in> g ` set js then None else m x)"
  by (induction js arbitrary: m) auto

text \<open>
  On the success path both pipelines delete what they staged: afterwards the virtual
  filesystem has no entry under a name the run wrote, and every other entry is as before.
\<close>

lemma splitAudio_success_unstages:
  assumes run: "splitAudio fl env file segmentLength st = (Inr processedFiles, st')"
    and media: "file_media file = Media duration w h"
  defines "staged \<equiv> insert (split_input file)
    (split_output file ` {0..<nat \<lceil>fl (duration / segmentLength)\<rceil>})"
  shows "fs st' x = (if x \<in> staged then None else fs st x)"
  using splitAudio_Inr(6) [OF run media]
  by (auto simp: fold_unstage staged_def)

lemma extractAudioFromVideo_success_unstages:
  assumes run: "extractAudioFromVideo env file options st = (Inr processed, st')"
  shows "fs st' x =
    (if x \<in> {extract_input file, extract_output options} then None else fs st x)"
  using extractAudioFromVideo_Inr(4) [OF run] by auto

text \<open>
  C8 fails on the error path. When the engine's first command throws, the audio split and the
  audio extraction both end with the error, and the input they staged is still in the virtual
  filesystem, which was empty before the run: the \<^verbatim>\<open>catch\<close> blocks rethrow without deleting.
\<close>

theorem staged_input_left_on_error:
  "fst (splitAudio exact failing_engine song 4 (start_state Map.empty)) =
     Inl ''FFmpeg failed for segment 1: boom'' \<and>
   fs (snd (splitAudio exact failing_engine song 4 (start_state Map.empty))) ''input.mp3'' =
     Some [1, 2, 3] \<and>
   fst (extractAudioFromVideo failing_engine clip mp3_medium (start_state Map.empty)) =
     Inl ''FFmpeg failed: boom'' \<and>
   fs (snd (extractAudioFromVideo failing_engine clip mp3_medium (start_state Map.empty)))
     ''input.mov'' = Some [1, 2, 3, 4]"
  by (simp add: song_split_failure clip_extraction_failure)

subsection \<open>The engine singleton\<close>




































end
